theory Spec2Isabelle
  imports Main
begin

section \<open>The Post aggregate (src/models/Post.js)\<close>

text \<open>
  An ObjectId is modelled as a natural number, a Date as its number of milliseconds
  (an integer), and a JavaScript string as the list of its UTF-16 code units, which is
  what \<^verbatim>\<open>length\<close> and \<^verbatim>\<open>trim\<close> work on. A populated reference (\<^verbatim>\<open>populate('author', ...)\<close>)
  is identified with the id it was built from: every author is taken to exist in the
  users collection. Of the timestamps only the post's \<^verbatim>\<open>createdAt\<close> is modelled, the
  one that queries read.
\<close>

type_synonym oid = nat
type_synonym date = int
type_synonym jsstring = "nat list"

record reply =
  reply_id :: oid
  reply_content :: jsstring
  reply_author :: oid
  reply_likes :: "oid list"

record comment =
  comment_id :: oid
  comment_content :: jsstring
  comment_author :: oid
  comment_likes :: "oid list"
  replies :: "reply list"

record post =
  post_id :: oid
  content :: jsstring
  images :: "jsstring list"
  author :: oid
  likes :: "oid list"
  comments :: "comment list"
  isHidden :: bool
  isDeleted :: bool
  createdAt :: date

text \<open>
  What a method of the model throws: the two \<^verbatim>\<open>new Error(...)\<close> of the nested lookups,
  the validation error of \<^verbatim>\<open>save()\<close>, and the error a query rejected by the database
  raises.
\<close>

datatype exn = CommentNotFound | ReplyNotFound | ValidationError | MongoError

fun exn_message :: "exn \<Rightarrow> string" where
  "exn_message CommentNotFound = ''Comment not found''"
| "exn_message ReplyNotFound = ''Reply not found''"
| "exn_message ValidationError = ''Post validation failed''"
| "exn_message MongoError = ''Query failed''"

subsection \<open>Strings\<close>

text \<open>
  \<^verbatim>\<open>String.prototype.trim\<close> strips the ECMAScript white space and line terminator code
  units from both ends.
\<close>

definition isWhiteSpace :: "nat \<Rightarrow> bool" where
  "isWhiteSpace c \<longleftrightarrow>
     c \<in> set [9, 10, 11, 12, 13, 32, 160, 5760, 8192, 8193, 8194, 8195, 8196, 8197,
              8198, 8199, 8200, 8201, 8202, 8232, 8233, 8239, 8287, 12288, 65279]"

definition trim :: "jsstring \<Rightarrow> jsstring" where
  "trim s = rev (dropWhile isWhiteSpace (rev (dropWhile isWhiteSpace s)))"

definition isLineTerminator :: "nat \<Rightarrow> bool" where
  "isLineTerminator c \<longleftrightarrow> c \<in> set [10, 13, 8232, 8233]"

text \<open>
  The regular expression \<^verbatim>\<open>/^https?:\/\/.+/\<close> tested on a string: the string starts with
  \<^verbatim>\<open>http://\<close> or \<^verbatim>\<open>https://\<close> and at least one more code unit follows that is not a line
  terminator (the dot does not match one).
\<close>

definition dotPlus :: "jsstring \<Rightarrow> bool" where
  "dotPlus s = (case s of [] \<Rightarrow> False | c # _ \<Rightarrow> \<not> isLineTerminator c)"

definition urlPattern :: "jsstring \<Rightarrow> bool" where
  "urlPattern s \<longleftrightarrow>
     (take 7 s = [104, 116, 116, 112, 58, 47, 47] \<and> dotPlus (drop 7 s)) \<or>
     (take 8 s = [104, 116, 116, 112, 115, 58, 47, 47] \<and> dotPlus (drop 8 s))"

subsection \<open>Schema validation, run by save()\<close>

text \<open>
  \<^verbatim>\<open>replySchema\<close>: content required (a non-empty string) and at most 200 code units.
  \<^verbatim>\<open>commentSchema\<close>: content required and at most 500, every reply valid.
  \<^verbatim>\<open>postSchema\<close>: content at most 500, every image matching the pattern (the \<^verbatim>\<open>match\<close>
  validator lets the empty string pass), every comment valid, and the
  \<^verbatim>\<open>pre('validate')\<close> hook: content or images.
\<close>

definition validReply :: "reply \<Rightarrow> bool" where
  "validReply r \<longleftrightarrow> reply_content r \<noteq> [] \<and> length (reply_content r) \<le> 200"

definition validComment :: "comment \<Rightarrow> bool" where
  "validComment c \<longleftrightarrow>
     comment_content c \<noteq> [] \<and> length (comment_content c) \<le> 500 \<and>
     list_all validReply (replies c)"

definition preValidate :: "post \<Rightarrow> bool" where
  "preValidate p \<longleftrightarrow> \<not> (content p = [] \<and> images p = [])"

definition validPost :: "post \<Rightarrow> bool" where
  "validPost p \<longleftrightarrow>
     length (content p) \<le> 500 \<and>
     list_all (\<lambda>i. i = [] \<or> urlPattern i) (images p) \<and>
     list_all validComment (comments p) \<and>
     preValidate p"

definition save :: "post \<Rightarrow> exn + post" where
  "save p = (if validPost p then Inr p else Inl ValidationError)"

subsection \<open>Instance methods\<close>

text \<open>
  A method works on the loaded document and ends with \<^verbatim>\<open>save()\<close>; the model returns the
  document that was saved, or what was thrown, in which case nothing was saved.
  \<^verbatim>\<open>likes.some(like => like.equals(id))\<close> is membership, \<^verbatim>\<open>pull\<close> removes every equal
  element and \<^verbatim>\<open>push\<close> appends.
\<close>

definition toggle :: "oid \<Rightarrow> oid list \<Rightarrow> oid list" where
  "toggle u ls = (if u \<in> set ls then removeAll u ls else ls @ [u])"

definition toggleLike :: "oid \<Rightarrow> post \<Rightarrow> exn + post" where
  "toggleLike userId p = save (p\<lparr>likes := toggle userId (likes p)\<rparr>)"

text \<open>
  \<^verbatim>\<open>comments.id(commentId)\<close> is the first subdocument with that id, or null; the methods
  then change that subdocument in place.
\<close>

fun updateFirst :: "('a \<Rightarrow> bool) \<Rightarrow> ('a \<Rightarrow> 'a) \<Rightarrow> 'a list \<Rightarrow> 'a list" where
  "updateFirst P f [] = []"
| "updateFirst P f (x # xs) = (if P x then f x # xs else x # updateFirst P f xs)"

definition commentById :: "oid \<Rightarrow> post \<Rightarrow> comment option" where
  "commentById commentId p = find (\<lambda>c. comment_id c = commentId) (comments p)"

definition replyById :: "oid \<Rightarrow> comment \<Rightarrow> reply option" where
  "replyById replyId c = find (\<lambda>r. reply_id r = replyId) (replies c)"

definition setComment :: "oid \<Rightarrow> (comment \<Rightarrow> comment) \<Rightarrow> post \<Rightarrow> post" where
  "setComment commentId f p =
     p\<lparr>comments := updateFirst (\<lambda>c. comment_id c = commentId) f (comments p)\<rparr>"

definition setReply :: "oid \<Rightarrow> (reply \<Rightarrow> reply) \<Rightarrow> comment \<Rightarrow> comment" where
  "setReply replyId f c =
     c\<lparr>replies := updateFirst (\<lambda>r. reply_id r = replyId) f (replies c)\<rparr>"

text \<open>
  \<^verbatim>\<open>comments.push(commentData)\<close> casts the data to a subdocument: a fresh id (an argument
  of the model), the content through the schema's \<^verbatim>\<open>trim\<close> setter, no likes, no replies.
\<close>

definition addComment :: "oid \<Rightarrow> jsstring \<times> oid \<Rightarrow> post \<Rightarrow> exn + post" where
  "addComment newId commentData p =
     save (p\<lparr>comments := comments p @
       [\<lparr>comment_id = newId, comment_content = trim (fst commentData),
         comment_author = snd commentData, comment_likes = [], replies = []\<rparr>]\<rparr>)"

definition toggleCommentLike :: "oid \<Rightarrow> oid \<Rightarrow> post \<Rightarrow> exn + post" where
  "toggleCommentLike commentId userId p =
     (case commentById commentId p of
        None \<Rightarrow> Inl CommentNotFound
      | Some c \<Rightarrow>
          save (setComment commentId
                  (\<lambda>c. c\<lparr>comment_likes := toggle userId (comment_likes c)\<rparr>) p))"

definition addReply :: "oid \<Rightarrow> oid \<Rightarrow> jsstring \<times> oid \<Rightarrow> post \<Rightarrow> exn + post" where
  "addReply newId commentId replyData p =
     (case commentById commentId p of
        None \<Rightarrow> Inl CommentNotFound
      | Some c \<Rightarrow>
          save (setComment commentId
                  (\<lambda>c. c\<lparr>replies := replies c @
                     [\<lparr>reply_id = newId, reply_content = trim (fst replyData),
                       reply_author = snd replyData, reply_likes = []\<rparr>]\<rparr>) p))"

definition toggleReplyLike :: "oid \<Rightarrow> oid \<Rightarrow> oid \<Rightarrow> post \<Rightarrow> exn + post" where
  "toggleReplyLike commentId replyId userId p =
     (case commentById commentId p of
        None \<Rightarrow> Inl CommentNotFound
      | Some c \<Rightarrow>
          (case replyById replyId c of
             None \<Rightarrow> Inl ReplyNotFound
           | Some r \<Rightarrow>
               save (setComment commentId
                       (setReply replyId
                          (\<lambda>r. r\<lparr>reply_likes := toggle userId (reply_likes r)\<rparr>)) p)))"

section \<open>Queries over the posts collection\<close>

text \<open>
  The collection is the list of its documents. A sort specification is a list of keys
  with a direction, \<open>-1\<close> for descending. The database compares the values it finds
  in the documents it sorts; a key that a document does not have reads as null, and
  null sorts before every number.
\<close>

datatype sort_field = LikesCount | CommentsCount | CreatedAt

datatype ordering = Lt | Eq | Gt

fun compareValue :: "int option \<Rightarrow> int option \<Rightarrow> ordering" where
  "compareValue None None = Eq"
| "compareValue None (Some b) = Lt"
| "compareValue (Some a) None = Gt"
| "compareValue (Some a) (Some b) = (if a < b then Lt else if a = b then Eq else Gt)"

fun compareBy ::
  "(sort_field \<times> int) list \<Rightarrow> (sort_field \<Rightarrow> int option) \<Rightarrow> (sort_field \<Rightarrow> int option) \<Rightarrow> ordering"
where
  "compareBy [] a b = Eq"
| "compareBy ((f, dir) # spec) a b =
     (case compareValue (a f) (b f) of
        Eq \<Rightarrow> compareBy spec a b
      | Lt \<Rightarrow> if dir < 0 then Gt else Lt
      | Gt \<Rightarrow> if dir < 0 then Lt else Gt)"

fun insertDoc ::
  "(sort_field \<times> int) list \<Rightarrow> ('d \<Rightarrow> sort_field \<Rightarrow> int option) \<Rightarrow> 'd \<Rightarrow> 'd list \<Rightarrow> 'd list"
where
  "insertDoc spec get d [] = [d]"
| "insertDoc spec get d (x # xs) =
     (if compareBy spec (get d) (get x) \<noteq> Gt then d # x # xs
      else x # insertDoc spec get d xs)"

definition mongoSort ::
  "(sort_field \<times> int) list \<Rightarrow> ('d \<Rightarrow> sort_field \<Rightarrow> int option) \<Rightarrow> 'd list \<Rightarrow> 'd list"
where
  "mongoSort spec get ds = foldr (insertDoc spec get) ds []"

text \<open>
  \<^verbatim>\<open>skip\<close> and \<^verbatim>\<open>limit\<close> of a find cursor: a negative skip is rejected by the server, a
  limit of zero is no limit and a negative limit counts as its absolute value.
\<close>

definition skipLimit :: "int \<Rightarrow> int \<Rightarrow> 'd list \<Rightarrow> exn + 'd list" where
  "skipLimit skip lim ds =
     (if skip < 0 then Inl MongoError
      else Inr (if lim = 0 then drop (nat skip) ds
                else take (nat \<bar>lim\<bar>) (drop (nat skip) ds)))"

text \<open>
  The fields of a stored post that a sort key can name. \<^verbatim>\<open>likesCount\<close> and
  \<^verbatim>\<open>commentsCount\<close> are virtuals of the schema, computed by getters on a hydrated
  document and never written to the collection.
\<close>

fun storedField :: "post \<Rightarrow> sort_field \<Rightarrow> int option" where
  "storedField p CreatedAt = Some (createdAt p)"
| "storedField p LikesCount = None"
| "storedField p CommentsCount = None"

text \<open>
  What \<^verbatim>\<open>findVisiblePosts\<close> and the trending pipeline return: the post with the two
  counts attached.
\<close>

record feed_post = post +
  likesCount :: nat
  commentsCount :: nat

definition withCounts :: "post \<Rightarrow> feed_post" where
  "withCounts p =
     post.extend p \<lparr>likesCount = length (likes p), commentsCount = length (comments p)\<rparr>"

definition matchCriteria :: "oid option \<Rightarrow> oid option \<Rightarrow> post \<Rightarrow> bool" where
  "matchCriteria authorId userId p \<longleftrightarrow>
     \<not> isDeleted p \<and>
     (case authorId of None \<Rightarrow> True | Some a \<Rightarrow> author p = a) \<and>
     (case userId of
        Some u \<Rightarrow> \<not> isHidden p \<or> author p = u
      | None \<Rightarrow> \<not> isHidden p)"

definition sortCriteria :: "string \<Rightarrow> (sort_field \<times> int) list" where
  "sortCriteria sortBy =
     (if sortBy = ''likes'' then [(LikesCount, -1), (CreatedAt, -1)]
      else if sortBy = ''comments'' then [(CommentsCount, -1), (CreatedAt, -1)]
      else [(CreatedAt, -1)])"

definition findVisiblePosts ::
  "int \<Rightarrow> int \<Rightarrow> oid option \<Rightarrow> oid option \<Rightarrow> string \<Rightarrow> post list \<Rightarrow> exn + feed_post list"
where
  "findVisiblePosts page lim authorId userId sortBy db =
     (case skipLimit ((page - 1) * lim) lim
             (mongoSort (sortCriteria sortBy) storedField
                (filter (matchCriteria authorId userId) db)) of
        Inl e \<Rightarrow> Inl e
      | Inr posts \<Rightarrow> Inr (map withCounts posts))"

section \<open>The posts router\<close>

text \<open>
  A request carries what the two collaborating middlewares decided: \<open>user\<close> is the id
  of the user \<^verbatim>\<open>auth\<close> or \<^verbatim>\<open>optionalAuth\<close> resolved from the token (none for an anonymous
  request), and \<open>limited\<close> tells that \<^verbatim>\<open>actionRateLimit\<close> found the actor at the maximum
  of the current window. A route is the chain of its middlewares in the order of the
  source; it returns the response and the collection after it. A failure is a status
  code with its message; a success carries the post (the response of the delete route
  has a message only). Numeric query parameters are the integers \<^verbatim>\<open>parseInt\<close> read;
  a parameter that is not a number is outside the model.
\<close>

record request =
  user :: "oid option"
  limited :: bool

datatype failure = Failure nat string

type_synonym 'a outcome = "(failure + 'a) \<times> post list"

definition unauthorized :: failure where
  "unauthorized = Failure 401 ''Access denied. No token provided or invalid format.''"

definition tooManyRequests :: failure where
  "tooManyRequests = Failure 429 ''Too many requests. Please try again later.''"

definition postNotFound :: failure where
  "postNotFound = Failure 404 ''Post not found''"

text \<open>The \<^verbatim>\<open>getPost\<close> middleware: \<^verbatim>\<open>findOne({_id: postId, isDeleted: false})\<close>.\<close>

definition getPost :: "oid \<Rightarrow> post list \<Rightarrow> failure + post" where
  "getPost postId db =
     (case find (\<lambda>p. post_id p = postId \<and> \<not> isDeleted p) db of
        None \<Rightarrow> Inl postNotFound
      | Some p \<Rightarrow> Inr p)"

text \<open>A successful \<^verbatim>\<open>save()\<close> of a loaded document writes it back under its id.\<close>

definition persist :: "post \<Rightarrow> post list \<Rightarrow> post list" where
  "persist p db = updateFirst (\<lambda>q. post_id q = post_id p) (\<lambda>_. p) db"

text \<open>
  The body of a request is whatever JSON the client sent, so its \<^verbatim>\<open>content\<close> field is
  absent, null, a string, or another value: a boolean, a number, an array or an object.
  Such a value is given by what the code can observe of it: whether it is truthy, and
  what its \<^verbatim>\<open>toString()\<close> returns, a string or the message of the TypeError it throws.
  A string is falsy when empty; no other value has the string methods \<^verbatim>\<open>trim\<close> and
  \<^verbatim>\<open>substring\<close>, so calling one on it throws a TypeError. The \<^verbatim>\<open>images\<close> field is taken
  to be absent or an array of strings.
\<close>

datatype body_value = JUndefined | JNull | JString jsstring | JOther bool "string + jsstring"

definition falsy :: "body_value \<Rightarrow> bool" where
  "falsy v = (case v of
                JUndefined \<Rightarrow> True
              | JNull \<Rightarrow> True
              | JString s \<Rightarrow> s = []
              | JOther truthy _ \<Rightarrow> \<not> truthy)"

definition toString :: "body_value \<Rightarrow> string + jsstring" where
  "toString v = (case v of
                   JUndefined \<Rightarrow> Inl ''Cannot read properties of undefined''
                 | JNull \<Rightarrow> Inl ''Cannot read properties of null''
                 | JString s \<Rightarrow> Inr s
                 | JOther _ r \<Rightarrow> r)"

definition textual :: "body_value \<Rightarrow> bool" where
  "textual v = (case v of JUndefined \<Rightarrow> True | JString _ \<Rightarrow> True | _ \<Rightarrow> False)"

text \<open>
  \<^verbatim>\<open>validateRequest\<close> on the one field the three rule sets of this router name,
  \<^verbatim>\<open>content\<close>, with the two rules they set (\<^verbatim>\<open>required\<close>, \<^verbatim>\<open>maxLength\<close>). It returns the
  list of errors, or the message of the error that \<^verbatim>\<open>value.toString()\<close> threw. The
  middleware has no handler of its own for that: the error reaches the application's
  \<^verbatim>\<open>errorHandler\<close>, whose default branch answers 500 with the error's message.
\<close>

record rules =
  required :: bool
  maxLength :: nat

datatype field_error = IsRequired | ExceedsMaxLength nat

definition checkMaxLength :: "rules \<Rightarrow> jsstring \<Rightarrow> field_error list" where
  "checkMaxLength r stringValue =
     (if maxLength r \<noteq> 0 \<and> length stringValue > maxLength r
        then [ExceedsMaxLength (maxLength r)]
      else [])"

definition validateRequest :: "rules \<Rightarrow> body_value \<Rightarrow> string + field_error list" where
  "validateRequest r v =
     (if required r \<and> falsy v then Inr [IsRequired]
      else if required r then
        (case toString v of
           Inl thrown \<Rightarrow> Inl thrown
         | Inr stringValue \<Rightarrow>
             if trim stringValue = [] then Inr [IsRequired]
             else Inr (checkMaxLength r stringValue))
      else if falsy v then Inr []
      else (case toString v of
              Inl thrown \<Rightarrow> Inl thrown
            | Inr stringValue \<Rightarrow> Inr (checkMaxLength r stringValue)))"

definition errorHandler :: "string \<Rightarrow> failure" where
  "errorHandler thrown = Failure 500 (if thrown = [] then ''Internal Server Error'' else thrown)"

definition createPostValidation :: rules where
  "createPostValidation = \<lparr>required = False, maxLength = 500\<rparr>"

definition commentValidation :: rules where
  "commentValidation = \<lparr>required = True, maxLength = 500\<rparr>"

definition replyValidation :: rules where
  "replyValidation = \<lparr>required = True, maxLength = 200\<rparr>"

definition validationFailed :: failure where
  "validationFailed = Failure 400 ''Validation failed''"

subsection \<open>Reading routes\<close>

text \<open>
  \<^verbatim>\<open>GET /api/posts/:postId\<close>: optionalAuth, getPost, then the handler's check that a
  hidden post is shown to its author only.
\<close>

definition getPostRoute :: "request \<Rightarrow> oid \<Rightarrow> post list \<Rightarrow> failure + post" where
  "getPostRoute req postId db =
     (case getPost postId db of
        Inl f \<Rightarrow> Inl f
      | Inr post \<Rightarrow>
          if isHidden post \<and> (user req = None \<or> Some (author post) \<noteq> user req)
          then Inl postNotFound
          else Inr post)"

text \<open>
  \<^verbatim>\<open>GET /api/posts\<close>: \<open>page\<close>, \<open>limit\<close> and \<open>sortBy\<close> are the query parameters (the
  numbers after \<^verbatim>\<open>parseInt\<close>), absent ones defaulting to 1, 10 and \<^verbatim>\<open>createdAt\<close>. The
  response holds the posts and \<^verbatim>\<open>hasMore\<close>.
\<close>

definition feedRoute ::
  "request \<Rightarrow> int option \<Rightarrow> int option \<Rightarrow> string option \<Rightarrow> post list
     \<Rightarrow> failure + (feed_post list \<times> bool)"
where
  "feedRoute req page lim sortBy db =
     (let page = (case page of None \<Rightarrow> 1 | Some n \<Rightarrow> n);
          lim = (case lim of None \<Rightarrow> 10 | Some n \<Rightarrow> n);
          sortBy = (case sortBy of None \<Rightarrow> ''createdAt'' | Some s \<Rightarrow> s)
      in case findVisiblePosts page lim None (user req) sortBy db of
           Inl e \<Rightarrow> Inl (Failure 500 ''Failed to fetch posts'')
         | Inr posts \<Rightarrow> Inr (posts, int (length posts) = lim))"

text \<open>
  \<^verbatim>\<open>GET /api/posts/user/:username\<close>: \<open>found\<close> is the id of the user with that name, if
  there is one.
\<close>

definition userPostsRoute ::
  "request \<Rightarrow> oid option \<Rightarrow> int option \<Rightarrow> int option \<Rightarrow> post list
     \<Rightarrow> failure + (feed_post list \<times> bool)"
where
  "userPostsRoute req found page lim db =
     (let page = (case page of None \<Rightarrow> 1 | Some n \<Rightarrow> n);
          lim = (case lim of None \<Rightarrow> 10 | Some n \<Rightarrow> n)
      in case found of
           None \<Rightarrow> Inl (Failure 404 ''User not found'')
         | Some userId \<Rightarrow>
             (case findVisiblePosts page lim (Some userId) (user req) ''createdAt'' db of
                Inl e \<Rightarrow> Inl (Failure 500 ''Failed to fetch user posts'')
              | Inr posts \<Rightarrow> Inr (posts, int (length posts) = lim)))"

text \<open>
  \<^verbatim>\<open>GET /api/posts/trending\<close>: an aggregation pipeline of \<^verbatim>\<open>$match\<close>, \<^verbatim>\<open>$addFields\<close>,
  \<^verbatim>\<open>$sort\<close> and \<^verbatim>\<open>$limit\<close>. The sort runs on the documents of the pipeline, which have
  the two added counts. \<^verbatim>\<open>$limit\<close> takes a positive number only. \<open>now\<close> is
  \<^verbatim>\<open>Date.now()\<close>.
\<close>

fun aggField :: "feed_post \<Rightarrow> sort_field \<Rightarrow> int option" where
  "aggField d CreatedAt = Some (createdAt d)"
| "aggField d LikesCount = Some (int (likesCount d))"
| "aggField d CommentsCount = Some (int (commentsCount d))"

definition trendingMatch :: "date \<Rightarrow> post \<Rightarrow> bool" where
  "trendingMatch oneDayAgo p \<longleftrightarrow> \<not> isDeleted p \<and> \<not> isHidden p \<and> oneDayAgo \<le> createdAt p"

definition trendingSort :: "(sort_field \<times> int) list" where
  "trendingSort = [(LikesCount, -1), (CommentsCount, -1), (CreatedAt, -1)]"

definition trendingRoute ::
  "request \<Rightarrow> date \<Rightarrow> int option \<Rightarrow> post list \<Rightarrow> failure + feed_post list"
where
  "trendingRoute req now lim db =
     (let lim = (case lim of None \<Rightarrow> 10 | Some n \<Rightarrow> n);
          oneDayAgo = now - 24 * 60 * 60 * 1000
      in if lim \<le> 0 then Inl (Failure 500 ''Error fetching trending posts'')
         else Inr (take (nat lim)
                (mongoSort trendingSort aggField
                   (map withCounts (filter (trendingMatch oneDayAgo) db)))))"

subsection \<open>Creating and changing a post\<close>

text \<open>
  \<^verbatim>\<open>POST /api/posts\<close>: auth, validateRequest, actionRateLimit, then the handler.
  \<open>newId\<close> is the id the new document gets and \<open>now\<close> its creation time.
\<close>

text \<open>
  \<^verbatim>\<open>content?.trim()\<close>: undefined for an absent or null content (here the empty string,
  as the handler only tests it and replaces it by \<^verbatim>\<open>''\<close>), the trimmed string for a
  string, and a TypeError, here \<open>None\<close>, for any other value. The handler's
  \<^verbatim>\<open>catch\<close> answers that error with 500.
\<close>

definition trimmed :: "body_value \<Rightarrow> jsstring option" where
  "trimmed v = (case v of
                  JUndefined \<Rightarrow> Some []
                | JNull \<Rightarrow> Some []
                | JString c \<Rightarrow> Some (trim c)
                | JOther _ _ \<Rightarrow> None)"

definition checkPostInput :: "jsstring \<Rightarrow> jsstring list \<Rightarrow> failure option" where
  "checkPostInput trimmed_content body_images =
     (if trimmed_content = [] \<and> body_images = []
        then Some (Failure 400 ''Post must have either content or images'')
      else if length body_images > 5
        then Some (Failure 400 ''Maximum 5 images allowed per post'')
      else if list_ex (\<lambda>image. image = [] \<or> \<not> urlPattern image) body_images
        then Some (Failure 400 ''Invalid image URL'')
      else None)"

definition createPostHandler ::
  "oid \<Rightarrow> date \<Rightarrow> oid \<Rightarrow> body_value \<Rightarrow> jsstring list \<Rightarrow> post list \<Rightarrow> post outcome"
where
  "createPostHandler newId now userId body_content body_images db =
     (case trimmed body_content of
        None \<Rightarrow> (Inl (Failure 500 ''Error creating post''), db)
      | Some t \<Rightarrow>
          (case checkPostInput t body_images of
             Some f \<Rightarrow> (Inl f, db)
           | None \<Rightarrow>
               (case save \<lparr>post_id = newId, content = trim t,
                            images = body_images, author = userId, likes = [], comments = [],
                            isHidden = False, isDeleted = False, createdAt = now\<rparr> of
                  Inl e \<Rightarrow> (Inl (Failure 500 ''Error creating post''), db)
                | Inr post \<Rightarrow> (Inr post, db @ [post]))))"

definition createPostRoute ::
  "request \<Rightarrow> oid \<Rightarrow> date \<Rightarrow> body_value \<Rightarrow> jsstring list \<Rightarrow> post list \<Rightarrow> post outcome"
where
  "createPostRoute req newId now body_content body_images db =
     (case user req of
        None \<Rightarrow> (Inl unauthorized, db)
      | Some userId \<Rightarrow>
          (case validateRequest createPostValidation body_content of
             Inl thrown \<Rightarrow> (Inl (errorHandler thrown), db)
           | Inr errors \<Rightarrow>
               if errors \<noteq> [] then (Inl validationFailed, db)
               else if limited req then (Inl tooManyRequests, db)
               else createPostHandler newId now userId body_content body_images db))"

text \<open>
  \<^verbatim>\<open>checkOwnership\<close> lets the author of the loaded post through and answers 403 to
  anyone else.
\<close>

definition forbidden :: failure where
  "forbidden = Failure 403 ''Access denied. You can only modify your own content.''"

definition updatePostRoute ::
  "request \<Rightarrow> oid \<Rightarrow> body_value \<Rightarrow> jsstring list \<Rightarrow> post list \<Rightarrow> post outcome"
where
  "updatePostRoute req postId body_content body_images db =
     (case user req of
        None \<Rightarrow> (Inl unauthorized, db)
      | Some userId \<Rightarrow>
          (case getPost postId db of
             Inl f \<Rightarrow> (Inl f, db)
           | Inr post \<Rightarrow>
               if author post \<noteq> userId then (Inl forbidden, db)
               else
                 (case validateRequest createPostValidation body_content of
                    Inl thrown \<Rightarrow> (Inl (errorHandler thrown), db)
                  | Inr errors \<Rightarrow>
                      if errors \<noteq> [] then (Inl validationFailed, db)
                      else if limited req then (Inl tooManyRequests, db)
                      else
                        (case trimmed body_content of
                           None \<Rightarrow> (Inl (Failure 500 ''Error updating post''), db)
                         | Some t \<Rightarrow>
                             (case checkPostInput t body_images of
                                Some f \<Rightarrow> (Inl f, db)
                              | None \<Rightarrow>
                                  (case save (post\<lparr>content := trim t,
                                                   images := body_images\<rparr>) of
                                     Inl e \<Rightarrow> (Inl (Failure 500 ''Error updating post''), db)
                                   | Inr post' \<Rightarrow> (Inr post', persist post' db)))))))"

definition hideRoute :: "request \<Rightarrow> oid \<Rightarrow> post list \<Rightarrow> post outcome" where
  "hideRoute req postId db =
     (case user req of
        None \<Rightarrow> (Inl unauthorized, db)
      | Some userId \<Rightarrow>
          (case getPost postId db of
             Inl f \<Rightarrow> (Inl f, db)
           | Inr post \<Rightarrow>
               if author post \<noteq> userId then (Inl forbidden, db)
               else (case save (post\<lparr>isHidden := \<not> isHidden post\<rparr>) of
                       Inl e \<Rightarrow> (Inl (Failure 500 ''Error hiding/unhiding post''), db)
                     | Inr post' \<Rightarrow> (Inr post', persist post' db))))"

definition deleteRoute :: "request \<Rightarrow> oid \<Rightarrow> post list \<Rightarrow> post outcome" where
  "deleteRoute req postId db =
     (case user req of
        None \<Rightarrow> (Inl unauthorized, db)
      | Some userId \<Rightarrow>
          (case getPost postId db of
             Inl f \<Rightarrow> (Inl f, db)
           | Inr post \<Rightarrow>
               if author post \<noteq> userId then (Inl forbidden, db)
               else (case save (post\<lparr>isDeleted := True\<rparr>) of
                       Inl e \<Rightarrow> (Inl (Failure 500 ''Error deleting post''), db)
                     | Inr post' \<Rightarrow> (Inr post', persist post' db))))"

subsection \<open>Likes, comments and replies\<close>

text \<open>
  Each of these routes runs auth, getPost, for comments and replies validateRequest,
  then actionRateLimit, and then the handler, which checks that the post is accessible
  to the actor. The comment handler first logs \<^verbatim>\<open>content.substring(0, 50)\<close>, which
  throws when the content is not a string, and only then checks the post; the reply
  handler checks the post first and calls \<^verbatim>\<open>content.trim()\<close> after. The handlers of the
  comment and reply routes answer a thrown \<^verbatim>\<open>Comment not found\<close> (the reply-like route:
  any message with \<^verbatim>\<open>not found\<close>) by 404 and every other error by 500.
\<close>

definition likeRoute :: "request \<Rightarrow> oid \<Rightarrow> post list \<Rightarrow> post outcome" where
  "likeRoute req postId db =
     (case user req of
        None \<Rightarrow> (Inl unauthorized, db)
      | Some userId \<Rightarrow>
          (case getPost postId db of
             Inl f \<Rightarrow> (Inl f, db)
           | Inr post \<Rightarrow>
               if limited req then (Inl tooManyRequests, db)
               else if isHidden post \<and> author post \<noteq> userId then (Inl postNotFound, db)
               else (case toggleLike userId post of
                       Inl e \<Rightarrow> (Inl (Failure 500 ''Error liking post''), db)
                     | Inr post' \<Rightarrow> (Inr post', persist post' db))))"

definition addCommentRoute ::
  "request \<Rightarrow> oid \<Rightarrow> oid \<Rightarrow> body_value \<Rightarrow> post list \<Rightarrow> post outcome"
where
  "addCommentRoute req postId newId body_content db =
     (case user req of
        None \<Rightarrow> (Inl unauthorized, db)
      | Some userId \<Rightarrow>
          (case getPost postId db of
             Inl f \<Rightarrow> (Inl f, db)
           | Inr post \<Rightarrow>
               (case validateRequest commentValidation body_content of
                  Inl thrown \<Rightarrow> (Inl (errorHandler thrown), db)
                | Inr errors \<Rightarrow>
                    if errors \<noteq> [] then (Inl validationFailed, db)
                    else if limited req then (Inl tooManyRequests, db)
                    else
                      (case body_content of
                         JString c \<Rightarrow>
                           if isHidden post \<and> author post \<noteq> userId
                             then (Inl postNotFound, db)
                           else (case addComment newId (trim c, userId) post of
                                   Inl e \<Rightarrow> (Inl (Failure 500 ''Error adding comment''), db)
                                 | Inr post' \<Rightarrow> (Inr post', persist post' db))
                       | _ \<Rightarrow> (Inl (Failure 500 ''Error adding comment''), db)))))"

definition commentLikeRoute :: "request \<Rightarrow> oid \<Rightarrow> oid \<Rightarrow> post list \<Rightarrow> post outcome" where
  "commentLikeRoute req postId commentId db =
     (case user req of
        None \<Rightarrow> (Inl unauthorized, db)
      | Some userId \<Rightarrow>
          (case getPost postId db of
             Inl f \<Rightarrow> (Inl f, db)
           | Inr post \<Rightarrow>
               if limited req then (Inl tooManyRequests, db)
               else if isHidden post \<and> author post \<noteq> userId then (Inl postNotFound, db)
               else (case toggleCommentLike commentId userId post of
                       Inl e \<Rightarrow>
                         (if e = CommentNotFound then (Inl (Failure 404 (exn_message e)), db)
                          else (Inl (Failure 500 ''Error liking comment''), db))
                     | Inr post' \<Rightarrow> (Inr post', persist post' db))))"

definition addReplyRoute ::
  "request \<Rightarrow> oid \<Rightarrow> oid \<Rightarrow> oid \<Rightarrow> body_value \<Rightarrow> post list \<Rightarrow> post outcome"
where
  "addReplyRoute req postId commentId newId body_content db =
     (case user req of
        None \<Rightarrow> (Inl unauthorized, db)
      | Some userId \<Rightarrow>
          (case getPost postId db of
             Inl f \<Rightarrow> (Inl f, db)
           | Inr post \<Rightarrow>
               (case validateRequest replyValidation body_content of
                  Inl thrown \<Rightarrow> (Inl (errorHandler thrown), db)
                | Inr errors \<Rightarrow>
                    if errors \<noteq> [] then (Inl validationFailed, db)
                    else if limited req then (Inl tooManyRequests, db)
                    else if isHidden post \<and> author post \<noteq> userId
                      then (Inl postNotFound, db)
                    else
                      (case body_content of
                         JString c \<Rightarrow>
                           (case addReply newId commentId (trim c, userId) post of
                              Inl e \<Rightarrow>
                                (if e = CommentNotFound
                                   then (Inl (Failure 404 (exn_message e)), db)
                                 else (Inl (Failure 500 ''Error adding reply''), db))
                            | Inr post' \<Rightarrow> (Inr post', persist post' db))
                       | _ \<Rightarrow> (Inl (Failure 500 ''Error adding reply''), db)))))"

definition replyLikeRoute ::
  "request \<Rightarrow> oid \<Rightarrow> oid \<Rightarrow> oid \<Rightarrow> post list \<Rightarrow> post outcome"
where
  "replyLikeRoute req postId commentId replyId db =
     (case user req of
        None \<Rightarrow> (Inl unauthorized, db)
      | Some userId \<Rightarrow>
          (case getPost postId db of
             Inl f \<Rightarrow> (Inl f, db)
           | Inr post \<Rightarrow>
               if limited req then (Inl tooManyRequests, db)
               else if isHidden post \<and> author post \<noteq> userId then (Inl postNotFound, db)
               else (case toggleReplyLike commentId replyId userId post of
                       Inl e \<Rightarrow>
                         (if e = CommentNotFound \<or> e = ReplyNotFound
                            then (Inl (Failure 404 (exn_message e)), db)
                          else (Inl (Failure 500 ''Error liking reply''), db))
                     | Inr post' \<Rightarrow> (Inr post', persist post' db))))"

section \<open>The specification's visibility predicate\<close>

text \<open>
  The predicate as the specification words it, to compare the code with: a post is
  visible iff it is not deleted and it is not hidden or the viewer is its author.
\<close>

definition isVisible_spec :: "'a post_scheme \<Rightarrow> oid option \<Rightarrow> bool" where
  "isVisible_spec p viewer \<longleftrightarrow> \<not> isDeleted p \<and> (\<not> isHidden p \<or> viewer = Some (author p))"

section \<open>The specification's orders and windows\<close>

text \<open>
  The orders and the page window as the specification words them, to compare the code
  with: the trending order (likes, then comments, then creation time, all descending),
  the order of the feed sorted by likes, and the zero-based window of a page.
  \<open>requested\<close> is the limit a trending request asks for, 10 when it names none, and
  \<open>feedSequence\<close> is the whole filtered and sorted sequence that \<^verbatim>\<open>findVisiblePosts\<close>
  pages through.
\<close>

definition trendingOrder_spec :: "feed_post \<Rightarrow> feed_post \<Rightarrow> bool" where
  "trendingOrder_spec a b \<longleftrightarrow>
     likesCount a > likesCount b \<or>
     (likesCount a = likesCount b \<and>
        (commentsCount a > commentsCount b \<or>
         (commentsCount a = commentsCount b \<and> createdAt a \<ge> createdAt b)))"

definition requested :: "int option \<Rightarrow> int" where
  "requested lim = (case lim of None \<Rightarrow> 10 | Some n \<Rightarrow> n)"

definition likesOrder_spec :: "feed_post \<Rightarrow> feed_post \<Rightarrow> bool" where
  "likesOrder_spec a b \<longleftrightarrow>
     likesCount a > likesCount b \<or> (likesCount a = likesCount b \<and> createdAt a \<ge> createdAt b)"

definition feedSequence :: "oid option \<Rightarrow> oid option \<Rightarrow> string \<Rightarrow> post list \<Rightarrow> feed_post list" where
  "feedSequence authorId userId sortBy db =
     map withCounts (mongoSort (sortCriteria sortBy) storedField
                       (filter (matchCriteria authorId userId) db))"

definition zeroBasedWindow_spec :: "nat \<Rightarrow> nat \<Rightarrow> 'a list \<Rightarrow> 'a list" where
  "zeroBasedWindow_spec page pageSize xs = take pageSize (drop (page * pageSize) xs)"

section \<open>Liker sets and example data\<close>

text \<open>
  The liker set of the post, of the comment a comment id resolves to, and of the reply
  a pair of ids resolves to; and what one toggle does to a set.
\<close>

definition flipMember :: "oid \<Rightarrow> oid set \<Rightarrow> oid set" where
  "flipMember a S = (if a \<in> S then S - {a} else insert a S)"

definition postLikers :: "post \<Rightarrow> oid set" where
  "postLikers p = set (likes p)"

definition commentLikers :: "oid \<Rightarrow> post \<Rightarrow> oid set option" where
  "commentLikers commentId p =
     map_option (\<lambda>c. set (comment_likes c)) (commentById commentId p)"

definition replyLikers :: "oid \<Rightarrow> oid \<Rightarrow> post \<Rightarrow> oid set option" where
  "replyLikers commentId replyId p =
     (case commentById commentId p of
        None \<Rightarrow> None
      | Some c \<Rightarrow> map_option (\<lambda>r. set (reply_likes r)) (replyById replyId c))"

text \<open>
  A small collection: an older post of user 1 with one like, one comment (id 7) and one
  reply (id 9) under it, a newer post without likes, a hidden post and a deleted one;
  the post that user 1 creates from the content \<^verbatim>\<open>" hi "\<close>; and the requests of an
  authenticated user below the rate limit and of an anonymous visitor.
\<close>

definition exampleReply :: reply where
  "exampleReply = \<lparr>reply_id = 9, reply_content = [111, 107], reply_author = 2,
                    reply_likes = [5]\<rparr>"

definition exampleComment :: comment where
  "exampleComment = \<lparr>comment_id = 7, comment_content = [110, 105, 99, 101],
                      comment_author = 2, comment_likes = [], replies = [exampleReply]\<rparr>"

definition olderPost :: post where
  "olderPost = \<lparr>post_id = 10, content = [104, 105], images = [], author = 1, likes = [2],
                 comments = [exampleComment], isHidden = False, isDeleted = False,
                 createdAt = 1000\<rparr>"

definition newerPost :: post where
  "newerPost = \<lparr>post_id = 11, content = [121, 111], images = [], author = 1, likes = [],
                 comments = [], isHidden = False, isDeleted = False, createdAt = 2000\<rparr>"

definition hiddenPost :: post where
  "hiddenPost = \<lparr>post_id = 12, content = [104, 105], images = [], author = 1, likes = [],
                  comments = [exampleComment], isHidden = True, isDeleted = False,
                  createdAt = 3000\<rparr>"

definition deletedPost :: post where
  "deletedPost = \<lparr>post_id = 13, content = [104, 105], images = [], author = 1, likes = [],
                   comments = [], isHidden = False, isDeleted = True, createdAt = 4000\<rparr>"

definition exampleDb :: "post list" where
  "exampleDb = [olderPost, newerPost, hiddenPost, deletedPost]"

definition createdPost :: post where
  "createdPost = \<lparr>post_id = 20, content = [104, 105], images = [], author = 1, likes = [],
                   comments = [], isHidden = False, isDeleted = False, createdAt = 6000\<rparr>"

definition member :: "oid \<Rightarrow> request" where
  "member u = \<lparr>user = Some u, limited = False\<rparr>"

definition anonymous :: request where
  "anonymous = \<lparr>user = None, limited = False\<rparr>"

lemmas example_defs =
  exampleReply_def exampleComment_def olderPost_def newerPost_def hiddenPost_def
  deletedPost_def exampleDb_def member_def anonymous_def

lemmas valid_defs = validPost_def validComment_def validReply_def preValidate_def

lemmas string_defs =
  trim_def trimmed_def isWhiteSpace_def falsy_def toString_def checkMaxLength_def
  validateRequest_def

section \<open>Toggling likes\<close>

lemma set_toggle: "set (toggle a ls) = flipMember a (set ls)"
  by (auto simp: toggle_def flipMember_def)

lemma flipMember_twice: "flipMember a (flipMember a S) = S"
  by (auto simp: flipMember_def)

lemma find_updateFirst:
  "(\<And>x. P (f x) = P x) \<Longrightarrow> find P (updateFirst P f xs) = map_option f (find P xs)"
  by (induction xs) auto

lemma list_all_updateFirst:
  "(\<And>x. x \<in> set xs \<Longrightarrow> Q (f x) = Q x) \<Longrightarrow> list_all Q (updateFirst P f xs) = list_all Q xs"
  by (induction xs) auto

lemma validComment_likes [simp]: "validComment (c\<lparr>comment_likes := ls\<rparr>) = validComment c"
  by (simp add: validComment_def)

lemma validReply_likes [simp]: "validReply (r\<lparr>reply_likes := ls\<rparr>) = validReply r"
  by (simp add: validReply_def)

lemma validComment_setReply_likes [simp]:
  "validComment (setReply rid (\<lambda>r. r\<lparr>reply_likes := g r\<rparr>) c) = validComment c"
  by (simp add: validComment_def setReply_def list_all_updateFirst)

lemma validPost_likes [simp]: "validPost (p\<lparr>likes := ls\<rparr>) = validPost p"
  by (simp add: validPost_def preValidate_def)

lemma validPost_setComment:
  "(\<And>c. validComment (f c) = validComment c) \<Longrightarrow> validPost (setComment cid f p) = validPost p"
  by (simp add: validPost_def preValidate_def setComment_def list_all_updateFirst)

lemma commentById_setComment:
  "(\<And>c. comment_id (f c) = comment_id c) \<Longrightarrow>
   commentById cid (setComment cid f p) = map_option f (commentById cid p)"
  by (simp add: commentById_def setComment_def find_updateFirst)

lemma replyById_setReply:
  "(\<And>r. reply_id (f r) = reply_id r) \<Longrightarrow>
   replyById rid (setReply rid f c) = map_option f (replyById rid c)"
  by (simp add: replyById_def setReply_def find_updateFirst)

lemma toggleLike_pair:
  assumes "validPost p"
  shows "\<exists>p1 p2. toggleLike a p = Inr p1 \<and> toggleLike a p1 = Inr p2 \<and>
           postLikers p1 = flipMember a (postLikers p) \<and> postLikers p2 = postLikers p"
  using assms by (simp add: toggleLike_def save_def postLikers_def set_toggle flipMember_twice)

lemma toggleCommentLike_pair:
  assumes "validPost p" and "commentLikers cid p = Some S"
  shows "\<exists>p1 p2. toggleCommentLike cid a p = Inr p1 \<and> toggleCommentLike cid a p1 = Inr p2 \<and>
           commentLikers cid p1 = Some (flipMember a S) \<and> commentLikers cid p2 = Some S"
proof -
  let ?f = "\<lambda>c. c\<lparr>comment_likes := toggle a (comment_likes c)\<rparr>"
  from assms(2) obtain c where c: "commentById cid p = Some c" "S = set (comment_likes c)"
    by (auto simp: commentLikers_def)
  let ?p1 = "setComment cid ?f p"
  let ?p2 = "setComment cid ?f ?p1"
  have v1: "validPost ?p1" using assms(1) by (simp add: validPost_setComment)
  have v2: "validPost ?p2" using v1 by (simp add: validPost_setComment)
  have c1: "commentById cid ?p1 = Some (?f c)" by (simp add: commentById_setComment c)
  have c2: "commentById cid ?p2 = Some (?f (?f c))" by (simp add: commentById_setComment c1)
  have "toggleCommentLike cid a p = Inr ?p1"
    using c v1 by (simp add: toggleCommentLike_def save_def)
  moreover have "toggleCommentLike cid a ?p1 = Inr ?p2"
    using c1 v2 by (simp add: toggleCommentLike_def save_def)
  moreover have "commentLikers cid ?p1 = Some (flipMember a S)"
    using c1 c by (simp add: commentLikers_def set_toggle)
  moreover have "commentLikers cid ?p2 = Some S"
    using c2 c by (simp add: commentLikers_def set_toggle flipMember_twice)
  ultimately show ?thesis by blast
qed

lemma toggleReplyLike_pair:
  assumes "validPost p" and "replyLikers cid rid p = Some S"
  shows "\<exists>p1 p2. toggleReplyLike cid rid a p = Inr p1 \<and> toggleReplyLike cid rid a p1 = Inr p2 \<and>
           replyLikers cid rid p1 = Some (flipMember a S) \<and> replyLikers cid rid p2 = Some S"
proof -
  let ?g = "\<lambda>r. r\<lparr>reply_likes := toggle a (reply_likes r)\<rparr>"
  let ?f = "setReply rid ?g"
  from assms(2) obtain c r where c: "commentById cid p = Some c"
    and r: "replyById rid c = Some r" and S: "S = set (reply_likes r)"
    by (auto simp: replyLikers_def split: option.splits)
  have idf: "\<And>c. comment_id (?f c) = comment_id c" by (simp add: setReply_def)
  let ?p1 = "setComment cid ?f p"
  let ?p2 = "setComment cid ?f ?p1"
  have v1: "validPost ?p1" using assms(1) by (simp add: validPost_setComment)
  have v2: "validPost ?p2" using v1 by (simp add: validPost_setComment)
  have c1: "commentById cid ?p1 = Some (?f c)"
    by (simp add: commentById_setComment idf c)
  have c2: "commentById cid ?p2 = Some (?f (?f c))"
    by (simp add: commentById_setComment idf c1)
  have r1: "replyById rid (?f c) = Some (?g r)" by (simp add: replyById_setReply r)
  have r2: "replyById rid (?f (?f c)) = Some (?g (?g r))"
    by (simp add: replyById_setReply r1)
  have "toggleReplyLike cid rid a p = Inr ?p1"
    using c r v1 by (simp add: toggleReplyLike_def save_def)
  moreover have "toggleReplyLike cid rid a ?p1 = Inr ?p2"
    using c1 r1 v2 by (simp add: toggleReplyLike_def save_def)
  moreover have "replyLikers cid rid ?p1 = Some (flipMember a S)"
    using c1 r1 S by (simp add: replyLikers_def set_toggle)
  moreover have "replyLikers cid rid ?p2 = Some S"
    using c2 r2 S by (simp add: replyLikers_def set_toggle flipMember_twice)
  ultimately show ?thesis by blast
qed

text \<open>
  Claim C3. For a loaded post that passes the schema validation of \<^verbatim>\<open>save()\<close> (as every
  document that \<^verbatim>\<open>save()\<close> wrote does) and every actor: one \<^verbatim>\<open>toggleLike\<close> succeeds and
  adds the actor to the post's liker set if absent and removes it if present, and a
  second one succeeds and gives the liker set back as it was. The same holds for
  \<^verbatim>\<open>toggleCommentLike\<close> on the liker set of an existing comment and for
  \<^verbatim>\<open>toggleReplyLike\<close> on the liker set of an existing reply.
\<close>

theorem like_toggle_pair_idempotent:
  assumes "validPost p"
  shows "(\<exists>p1 p2. toggleLike a p = Inr p1 \<and> toggleLike a p1 = Inr p2 \<and>
            postLikers p1 = flipMember a (postLikers p) \<and> postLikers p2 = postLikers p) \<and>
         (\<forall>S. commentLikers cid p = Some S \<longrightarrow>
            (\<exists>p1 p2. toggleCommentLike cid a p = Inr p1 \<and>
               toggleCommentLike cid a p1 = Inr p2 \<and>
               commentLikers cid p1 = Some (flipMember a S) \<and>
               commentLikers cid p2 = Some S)) \<and>
         (\<forall>S. replyLikers cid rid p = Some S \<longrightarrow>
            (\<exists>p1 p2. toggleReplyLike cid rid a p = Inr p1 \<and>
               toggleReplyLike cid rid a p1 = Inr p2 \<and>
               replyLikers cid rid p1 = Some (flipMember a S) \<and>
               replyLikers cid rid p2 = Some S))"
  using assms toggleLike_pair toggleCommentLike_pair toggleReplyLike_pair by blast

theorem like_toggle_pair_idempotent_witness:
  "validPost olderPost \<and> postLikers olderPost = {2} \<and>
   commentLikers 7 olderPost = Some {} \<and> replyLikers 7 9 olderPost = Some {5} \<and>
   (\<exists>p1 p2. toggleLike 3 olderPost = Inr p1 \<and> toggleLike 3 p1 = Inr p2 \<and>
      postLikers p1 = {2, 3} \<and> postLikers p2 = {2}) \<and>
   (\<exists>p1 p2. toggleCommentLike 7 3 olderPost = Inr p1 \<and> toggleCommentLike 7 3 p1 = Inr p2 \<and>
      commentLikers 7 p1 = Some {3} \<and> commentLikers 7 p2 = Some {}) \<and>
   (\<exists>p1 p2. toggleReplyLike 7 9 5 olderPost = Inr p1 \<and> toggleReplyLike 7 9 5 p1 = Inr p2 \<and>
      replyLikers 7 9 p1 = Some {} \<and> replyLikers 7 9 p2 = Some {5})"
proof -
  have v: "validPost olderPost"
    by (simp add: example_defs valid_defs)
  have l: "postLikers olderPost = {2}"
    by (simp add: postLikers_def example_defs)
  have c: "commentLikers 7 olderPost = Some {}"
    by (simp add: commentLikers_def commentById_def example_defs)
  have r: "replyLikers 7 9 olderPost = Some {5}"
    by (simp add: replyLikers_def commentById_def replyById_def example_defs)
  have f1: "flipMember 3 {2} = {2, 3}" by (auto simp: flipMember_def)
  have f2: "flipMember 3 {} = {3}" by (auto simp: flipMember_def)
  have f3: "flipMember 5 {5} = {}" by (auto simp: flipMember_def)
  from like_toggle_pair_idempotent [OF v, of 3 7 9] like_toggle_pair_idempotent [OF v, of 5 7 9]
  show ?thesis unfolding l c r using v f1 f2 f3 by simp
qed

section \<open>Nested lookups that fail\<close>


lemma find_None_ids: "find (\<lambda>x. f x = i) xs = None \<longleftrightarrow> i \<notin> set (map f xs)"
  by (auto simp: find_None_iff)

lemma commentById_None: "commentById cid p = None \<longleftrightarrow> cid \<notin> set (map comment_id (comments p))"
  unfolding commentById_def by (rule find_None_ids)

lemma replyById_None: "replyById rid c = None \<longleftrightarrow> rid \<notin> set (map reply_id (replies c))"
  unfolding replyById_def by (rule find_None_ids)

lemma validateRequest_textual:
  "textual v \<Longrightarrow> \<exists>errors. validateRequest r v = Inr errors"
  by (cases v) (simp_all add: textual_def validateRequest_def toString_def falsy_def)

lemma validateRequest_required_absent:
  "required r \<Longrightarrow> validateRequest r JUndefined = Inr [IsRequired]"
  by (simp add: validateRequest_def falsy_def)

text \<open>
  Claim C6. \<^verbatim>\<open>addReply\<close> with a comment id that no comment of the post has throws
  \<^verbatim>\<open>Comment not found\<close> before anything is pushed or saved. The route that calls it
  leaves the collection as it was whatever the request, and answers a request that
  reaches the method with 404 and that message.
\<close>

theorem addReply_unknown_comment:
  assumes "commentId \<notin> set (map comment_id (comments p))"
  shows "addReply newId commentId replyData p = Inl CommentNotFound \<and>
         (getPost postId db = Inr p \<longrightarrow>
            snd (addReplyRoute req postId commentId newId body_content db) = db \<and>
            (\<forall>c. body_content = JString c \<and> user req = Some u \<and>
                 validateRequest replyValidation body_content = Inr [] \<and>
                 \<not> limited req \<and> \<not> (isHidden p \<and> author p \<noteq> u) \<longrightarrow>
               addReplyRoute req postId commentId newId body_content db =
                 (Inl (Failure 404 ''Comment not found''), db)))"
proof -
  have n: "commentById commentId p = None" using assms by (simp add: commentById_None)
  have m: "addReply newId commentId replyData p = Inl CommentNotFound" for replyData
    by (simp add: addReply_def n)
  have s: "snd (addReplyRoute req postId commentId newId body_content db) = db"
    if "getPost postId db = Inr p"
    using that
    by (simp add: addReplyRoute_def m split: option.splits sum.splits body_value.splits)
  have r: "addReplyRoute req postId commentId newId body_content db =
             (Inl (Failure 404 ''Comment not found''), db)"
    if "getPost postId db = Inr p" "body_content = JString c" "user req = Some u"
       "validateRequest replyValidation body_content = Inr []" "\<not> limited req"
       "\<not> (isHidden p \<and> author p \<noteq> u)" for c
    using that by (auto simp: addReplyRoute_def m)
  from m s r show ?thesis by blast
qed

theorem addReply_unknown_comment_witness:
  "8 \<notin> set (map comment_id (comments olderPost)) \<and>
   getPost 10 exampleDb = Inr olderPost \<and>
   user (member 2) = Some 2 \<and>
   validateRequest replyValidation (JString [116, 120]) = Inr [] \<and>
   \<not> limited (member 2) \<and> \<not> (isHidden olderPost \<and> author olderPost \<noteq> 2) \<and>
   addReply 99 8 ([116, 120], 2) olderPost = Inl CommentNotFound \<and>
   addReplyRoute (member 2) 10 8 99 (JString [116, 120]) exampleDb =
     (Inl (Failure 404 ''Comment not found''), exampleDb)"
proof -
  have a: "8 \<notin> set (map comment_id (comments olderPost))"
    by (simp add: example_defs)
  have g: "getPost 10 exampleDb = Inr olderPost"
    by (simp add: getPost_def example_defs)
  have v: "validateRequest replyValidation (JString [116, 120]) = Inr []"
    by (simp add: replyValidation_def string_defs)
  have h: "user (member 2) = Some 2" "\<not> limited (member 2)"
    "\<not> (isHidden olderPost \<and> author olderPost \<noteq> 2)"
    by (simp_all add: example_defs)
  from addReply_unknown_comment [OF a, of 99 "([116, 120], 2)" 10 exampleDb "member 2"
      "JString [116, 120]" 2] a g v h
  show ?thesis by simp
qed

text \<open>
  Claim C7. \<^verbatim>\<open>toggleReplyLike\<close> throws \<^verbatim>\<open>Comment not found\<close> when no comment of the post
  has the comment id, and \<^verbatim>\<open>Reply not found\<close> when the comment exists and none of its
  replies has the reply id. Nothing is saved in either case: the route answers 404 with
  the respective message and the collection is unchanged.
\<close>

theorem toggleReplyLike_not_found:
  "(commentId \<notin> set (map comment_id (comments p)) \<longrightarrow>
      toggleReplyLike commentId replyId u p = Inl CommentNotFound) \<and>
   (\<forall>c. commentById commentId p = Some c \<and> replyId \<notin> set (map reply_id (replies c)) \<longrightarrow>
      toggleReplyLike commentId replyId u p = Inl ReplyNotFound) \<and>
   (getPost postId db = Inr p \<longrightarrow>
      (commentId \<notin> set (map comment_id (comments p)) \<longrightarrow>
         snd (replyLikeRoute req postId commentId replyId db) = db \<and>
         (user req = Some u \<and> \<not> limited req \<and> \<not> (isHidden p \<and> author p \<noteq> u) \<longrightarrow>
            replyLikeRoute req postId commentId replyId db =
              (Inl (Failure 404 ''Comment not found''), db))) \<and>
      (\<forall>c. commentById commentId p = Some c \<and> replyId \<notin> set (map reply_id (replies c)) \<longrightarrow>
         snd (replyLikeRoute req postId commentId replyId db) = db \<and>
         (user req = Some u \<and> \<not> limited req \<and> \<not> (isHidden p \<and> author p \<noteq> u) \<longrightarrow>
            replyLikeRoute req postId commentId replyId db =
              (Inl (Failure 404 ''Reply not found''), db))))"
  by (auto simp: toggleReplyLike_def replyLikeRoute_def commentById_None [symmetric]
      replyById_None [symmetric] simp del: set_map split: option.splits)

theorem toggleReplyLike_not_found_witness:
  "8 \<notin> set (map comment_id (comments olderPost)) \<and>
   commentById 7 olderPost = Some exampleComment \<and>
   4 \<notin> set (map reply_id (replies exampleComment)) \<and>
   getPost 10 exampleDb = Inr olderPost \<and> user (member 2) = Some 2 \<and>
   \<not> limited (member 2) \<and> \<not> (isHidden olderPost \<and> author olderPost \<noteq> 2) \<and>
   toggleReplyLike 8 9 2 olderPost = Inl CommentNotFound \<and>
   toggleReplyLike 7 4 2 olderPost = Inl ReplyNotFound \<and>
   replyLikeRoute (member 2) 10 8 9 exampleDb =
     (Inl (Failure 404 ''Comment not found''), exampleDb) \<and>
   replyLikeRoute (member 2) 10 7 4 exampleDb =
     (Inl (Failure 404 ''Reply not found''), exampleDb)"
proof -
  have a: "8 \<notin> set (map comment_id (comments olderPost))"
    by (simp add: example_defs)
  have c: "commentById 7 olderPost = Some exampleComment"
    by (simp add: commentById_def example_defs)
  have r: "4 \<notin> set (map reply_id (replies exampleComment))"
    by (simp add: example_defs)
  have g: "getPost 10 exampleDb = Inr olderPost"
    by (simp add: getPost_def example_defs)
  have h: "user (member 2) = Some 2" "\<not> limited (member 2)"
    "\<not> (isHidden olderPost \<and> author olderPost \<noteq> 2)"
    by (simp_all add: example_defs)
  from toggleReplyLike_not_found [of 8 olderPost 9 2 10 exampleDb "member 2"]
    toggleReplyLike_not_found [of 7 olderPost 4 2 10 exampleDb "member 2"] a c r g h
  show ?thesis by simp
qed

section \<open>Visibility\<close>

lemma find_distinct_id:
  "distinct (map f xs) \<Longrightarrow> x \<in> set xs \<Longrightarrow>
   find (\<lambda>y. f y = f x \<and> Q y) xs = (if Q x then Some x else None)"
  by (induction xs) (auto simp: find_None_iff image_iff)

lemma getPost_unique:
  assumes "distinct (map post_id db)" and "P \<in> set db"
  shows "getPost (post_id P) db = (if isDeleted P then Inl postNotFound else Inr P)"
  using find_distinct_id [OF assms, of "\<lambda>p. \<not> isDeleted p"] by (simp add: getPost_def)

lemma set_insertDoc: "set (insertDoc spec get d xs) = insert d (set xs)"
  by (induction xs) auto

lemma set_mongoSort: "set (mongoSort spec get ds) = set ds"
  unfolding mongoSort_def by (induction ds) (auto simp: set_insertDoc)

lemma length_insertDoc: "length (insertDoc spec get d xs) = Suc (length xs)"
  by (induction xs) auto

lemma length_mongoSort: "length (mongoSort spec get ds) = length ds"
  unfolding mongoSort_def by (induction ds) (auto simp: length_insertDoc)

lemma skipLimit_subset: "skipLimit skip lim ds = Inr rs \<Longrightarrow> set rs \<subseteq> set ds"
  by (auto simp: skipLimit_def split: if_splits dest: in_set_takeD in_set_dropD)

lemma findVisiblePosts_sound:
  assumes "findVisiblePosts page lim authorId userId sortBy db = Inr posts"
    and "fp \<in> set posts"
  shows "\<exists>p \<in> set db. fp = withCounts p \<and> matchCriteria authorId userId p"
proof -
  from assms(1) obtain rs where
    rs: "skipLimit ((page - 1) * lim) lim
           (mongoSort (sortCriteria sortBy) storedField
              (filter (matchCriteria authorId userId) db)) = Inr rs"
    and posts: "posts = map withCounts rs"
    by (auto simp: findVisiblePosts_def split: sum.splits)
  from skipLimit_subset [OF rs] have "set rs \<subseteq> {p \<in> set db. matchCriteria authorId userId p}"
    by (simp add: set_mongoSort)
  with assms(2) posts show ?thesis by auto
qed

lemma withCounts_fields [simp]:
  "isDeleted (withCounts p) = isDeleted p" "isHidden (withCounts p) = isHidden p"
  "author (withCounts p) = author p" "createdAt (withCounts p) = createdAt p"
  "likes (withCounts p) = likes p" "comments (withCounts p) = comments p"
  "post_id (withCounts p) = post_id p"
  "likesCount (withCounts p) = length (likes p)"
  "commentsCount (withCounts p) = length (comments p)"
  by (simp_all add: withCounts_def post.defs)

lemma matchCriteria_visible:
  "matchCriteria authorId viewer p \<longleftrightarrow>
     isVisible_spec p viewer \<and> (case authorId of None \<Rightarrow> True | Some a \<Rightarrow> author p = a)"
  by (auto simp: matchCriteria_def isVisible_spec_def split: option.splits)

lemma isVisible_withCounts [simp]: "isVisible_spec (withCounts p) v = isVisible_spec p v"
  by (simp add: isVisible_spec_def)


lemma exampleDb_distinct: "distinct (map post_id exampleDb)"
  by (simp add: example_defs)

lemma feed_example:
  "findVisiblePosts 1 10 None (Some 1) ''createdAt'' exampleDb =
     Inr [withCounts hiddenPost, withCounts newerPost, withCounts olderPost]"
  by (simp add: findVisiblePosts_def skipLimit_def mongoSort_def sortCriteria_def
      matchCriteria_def example_defs)

lemma feed_example_anonymous:
  "findVisiblePosts 1 10 None None ''createdAt'' exampleDb =
     Inr [withCounts newerPost, withCounts olderPost]"
  by (simp add: findVisiblePosts_def skipLimit_def mongoSort_def sortCriteria_def
      matchCriteria_def example_defs)

lemma user_posts_example:
  "findVisiblePosts 1 10 (Some 1) (Some 1) ''createdAt'' exampleDb =
     Inr [withCounts hiddenPost, withCounts newerPost, withCounts olderPost]"
  by (simp add: findVisiblePosts_def skipLimit_def mongoSort_def sortCriteria_def
      matchCriteria_def example_defs)

lemma trending_example:
  "trendingRoute req 5000 None exampleDb = Inr [withCounts olderPost, withCounts newerPost]"
  by (simp add: trendingRoute_def trendingMatch_def trendingSort_def mongoSort_def
      example_defs)

text \<open>
  Claim C4. A deleted post of the collection (ids are unique there) is visible to no
  viewer, its author included: the specification's predicate is false, single-post
  retrieval answers 404 \<^verbatim>\<open>Post not found\<close>, no result of \<^verbatim>\<open>findVisiblePosts\<close>, of the feed,
  of the per-author listing or of the trending listing contains a deleted post, and
  every mutating route of an authenticated actor on it answers 404 \<^verbatim>\<open>Post not found\<close>
  and leaves the collection unchanged.
\<close>

theorem deleted_post_invisible:
  assumes "distinct (map post_id db)" and "P \<in> set db" and "isDeleted P"
  shows "\<not> isVisible_spec P viewer \<and>
         getPostRoute req (post_id P) db = Inl postNotFound \<and>
         (\<forall>posts. findVisiblePosts page lim authorId userId sortBy db = Inr posts \<longrightarrow>
            withCounts P \<notin> set posts \<and> (\<forall>fp \<in> set posts. \<not> isDeleted fp)) \<and>
         (\<forall>posts more. feedRoute req qpage qlim qsort db = Inr (posts, more) \<longrightarrow>
            (\<forall>fp \<in> set posts. \<not> isDeleted fp)) \<and>
         (\<forall>posts more. userPostsRoute req found qpage qlim db = Inr (posts, more) \<longrightarrow>
            (\<forall>fp \<in> set posts. \<not> isDeleted fp)) \<and>
         (\<forall>posts. trendingRoute req now qlim db = Inr posts \<longrightarrow>
            (\<forall>fp \<in> set posts. \<not> isDeleted fp)) \<and>
         (user req = Some u \<longrightarrow>
            likeRoute req (post_id P) db = (Inl postNotFound, db) \<and>
            addCommentRoute req (post_id P) newId body_content db = (Inl postNotFound, db) \<and>
            commentLikeRoute req (post_id P) commentId db = (Inl postNotFound, db) \<and>
            addReplyRoute req (post_id P) commentId newId body_content db =
              (Inl postNotFound, db) \<and>
            replyLikeRoute req (post_id P) commentId replyId db = (Inl postNotFound, db) \<and>
            updatePostRoute req (post_id P) body_content body_images db =
              (Inl postNotFound, db) \<and>
            hideRoute req (post_id P) db = (Inl postNotFound, db) \<and>
            deleteRoute req (post_id P) db = (Inl postNotFound, db))"
proof -
  have g: "getPost (post_id P) db = Inl postNotFound"
    using getPost_unique [OF assms(1,2)] assms(3) by simp
  have fv: "\<not> isDeleted fp"
    if "findVisiblePosts page' lim' a' u' s' db = Inr posts" "fp \<in> set posts"
    for page' lim' a' u' s' posts fp
    using findVisiblePosts_sound [OF that] by (auto simp: matchCriteria_def)
  have v: "\<not> isVisible_spec P viewer" using assms(3) by (simp add: isVisible_spec_def)
  have r: "getPostRoute req (post_id P) db = Inl postNotFound"
    by (simp add: getPostRoute_def g)
  have f1: "\<forall>posts. findVisiblePosts page lim authorId userId sortBy db = Inr posts \<longrightarrow>
            withCounts P \<notin> set posts \<and> (\<forall>fp \<in> set posts. \<not> isDeleted fp)"
    using fv assms(3) by (metis withCounts_fields(1))
  have f2: "\<forall>posts more. feedRoute req qpage qlim qsort db = Inr (posts, more) \<longrightarrow>
            (\<forall>fp \<in> set posts. \<not> isDeleted fp)"
    using fv by (auto simp: feedRoute_def Let_def split: sum.splits)
  have f3: "\<forall>posts more. userPostsRoute req found qpage qlim db = Inr (posts, more) \<longrightarrow>
            (\<forall>fp \<in> set posts. \<not> isDeleted fp)"
    using fv by (auto simp: userPostsRoute_def Let_def split: sum.splits option.splits)
  have f4: "\<forall>posts. trendingRoute req now qlim db = Inr posts \<longrightarrow>
            (\<forall>fp \<in> set posts. \<not> isDeleted fp)"
    by (auto simp: trendingRoute_def Let_def set_mongoSort trendingMatch_def
        split: if_splits dest!: in_set_takeD)
  have m: "user req = Some u \<longrightarrow>
            likeRoute req (post_id P) db = (Inl postNotFound, db) \<and>
            addCommentRoute req (post_id P) newId body_content db = (Inl postNotFound, db) \<and>
            commentLikeRoute req (post_id P) commentId db = (Inl postNotFound, db) \<and>
            addReplyRoute req (post_id P) commentId newId body_content db =
              (Inl postNotFound, db) \<and>
            replyLikeRoute req (post_id P) commentId replyId db = (Inl postNotFound, db) \<and>
            updatePostRoute req (post_id P) body_content body_images db =
              (Inl postNotFound, db) \<and>
            hideRoute req (post_id P) db = (Inl postNotFound, db) \<and>
            deleteRoute req (post_id P) db = (Inl postNotFound, db)"
    by (simp add: likeRoute_def addCommentRoute_def commentLikeRoute_def addReplyRoute_def
        replyLikeRoute_def updatePostRoute_def hideRoute_def deleteRoute_def g)
  from v r f1 f2 f3 f4 m show ?thesis by blast
qed

theorem deleted_post_invisible_witness:
  "distinct (map post_id exampleDb) \<and> deletedPost \<in> set exampleDb \<and> isDeleted deletedPost \<and>
   author deletedPost = 1 \<and> user (member 1) = Some 1 \<and>
   \<not> isVisible_spec deletedPost (Some 1) \<and>
   getPostRoute (member 1) 13 exampleDb = Inl postNotFound \<and>
   findVisiblePosts 1 10 None (Some 1) ''createdAt'' exampleDb =
     Inr [withCounts hiddenPost, withCounts newerPost, withCounts olderPost] \<and>
   withCounts deletedPost \<notin>
     set [withCounts hiddenPost, withCounts newerPost, withCounts olderPost] \<and>
   feedRoute (member 1) None None None exampleDb =
     Inr ([withCounts hiddenPost, withCounts newerPost, withCounts olderPost], False) \<and>
   userPostsRoute (member 1) (Some 1) None None exampleDb =
     Inr ([withCounts hiddenPost, withCounts newerPost, withCounts olderPost], False) \<and>
   trendingRoute (member 1) 5000 None exampleDb =
     Inr [withCounts olderPost, withCounts newerPost] \<and>
   likeRoute (member 1) 13 exampleDb = (Inl postNotFound, exampleDb) \<and>
   addCommentRoute (member 1) 13 99 (JString [104, 105]) exampleDb =
     (Inl postNotFound, exampleDb) \<and>
   deleteRoute (member 1) 13 exampleDb = (Inl postNotFound, exampleDb)"
proof -
  have p: "deletedPost \<in> set exampleDb" "isDeleted deletedPost" "author deletedPost = 1"
    "user (member 1) = Some 1" "post_id deletedPost = 13"
    by (simp_all add: example_defs)
  have f: "feedRoute (member 1) None None None exampleDb =
     Inr ([withCounts hiddenPost, withCounts newerPost, withCounts olderPost], False)"
    using feed_example by (simp add: feedRoute_def member_def)
  have u: "userPostsRoute (member 1) (Some 1) None None exampleDb =
     Inr ([withCounts hiddenPost, withCounts newerPost, withCounts olderPost], False)"
    using user_posts_example by (simp add: userPostsRoute_def member_def)
  from deleted_post_invisible [OF exampleDb_distinct p(1,2), of "Some 1" "member 1" 1 10 None
      "Some 1" "''createdAt''" None None None "Some 1" 5000 1 99 "JString [104, 105]"]
    exampleDb_distinct p f u feed_example trending_example
  show ?thesis by simp
qed

text \<open>
  Claim C5. Single-post retrieval returns a post of the collection exactly when the
  specification's predicate (not deleted, and not hidden or the viewer is the author)
  holds of it and the viewer, and answers 404 otherwise; the match criteria of
  \<^verbatim>\<open>findVisiblePosts\<close> are that same predicate (together with the author filter of the
  per-author listing), so every listed post satisfies it. For a hidden, non-deleted
  post the predicate holds for the author and fails for every other viewer and for the
  anonymous one.
\<close>

theorem visibility_predicate:
  assumes "distinct (map post_id db)" and "P \<in> set db"
  shows "getPostRoute req (post_id P) db =
           (if isVisible_spec P (user req) then Inr P else Inl postNotFound) \<and>
         (\<forall>p. matchCriteria None viewer p = isVisible_spec p viewer) \<and>
         (\<forall>p a. matchCriteria (Some a) viewer p = (author p = a \<and> isVisible_spec p viewer)) \<and>
         (\<forall>posts. findVisiblePosts page lim authorId viewer sortBy db = Inr posts \<longrightarrow>
            (\<forall>fp \<in> set posts. isVisible_spec fp viewer)) \<and>
         (isHidden P \<and> \<not> isDeleted P \<longrightarrow>
            isVisible_spec P (Some (author P)) \<and>
            (\<forall>V. V \<noteq> author P \<longrightarrow> \<not> isVisible_spec P (Some V)) \<and>
            \<not> isVisible_spec P None)"
proof -
  have r: "getPostRoute req (post_id P) db =
           (if isVisible_spec P (user req) then Inr P else Inl postNotFound)"
    using getPost_unique [OF assms] by (auto simp: getPostRoute_def isVisible_spec_def)
  have m: "(\<forall>p. matchCriteria None viewer p = isVisible_spec p viewer) \<and>
         (\<forall>p a. matchCriteria (Some a) viewer p = (author p = a \<and> isVisible_spec p viewer))"
    by (auto simp: matchCriteria_visible)
  have f: "\<forall>posts. findVisiblePosts page lim authorId viewer sortBy db = Inr posts \<longrightarrow>
            (\<forall>fp \<in> set posts. isVisible_spec fp viewer)"
    using findVisiblePosts_sound [of page lim authorId viewer sortBy db]
    by (fastforce simp: matchCriteria_visible)
  have h: "isHidden P \<and> \<not> isDeleted P \<longrightarrow>
            isVisible_spec P (Some (author P)) \<and>
            (\<forall>V. V \<noteq> author P \<longrightarrow> \<not> isVisible_spec P (Some V)) \<and>
            \<not> isVisible_spec P None"
    by (auto simp: isVisible_spec_def)
  from r m f h show ?thesis by blast
qed


theorem visibility_predicate_witness:
  "distinct (map post_id exampleDb) \<and> hiddenPost \<in> set exampleDb \<and>
   isHidden hiddenPost \<and> \<not> isDeleted hiddenPost \<and> author hiddenPost = 1 \<and>
   getPostRoute (member 1) 12 exampleDb = Inr hiddenPost \<and>
   getPostRoute (member 2) 12 exampleDb = Inl postNotFound \<and>
   getPostRoute anonymous 12 exampleDb = Inl postNotFound \<and>
   findVisiblePosts 1 10 None (Some 1) ''createdAt'' exampleDb =
     Inr [withCounts hiddenPost, withCounts newerPost, withCounts olderPost] \<and>
   isVisible_spec (withCounts hiddenPost) (Some 1) \<and>
   isVisible_spec (withCounts newerPost) (Some 1) \<and>
   isVisible_spec (withCounts olderPost) (Some 1) \<and>
   findVisiblePosts 1 10 None None ''createdAt'' exampleDb =
     Inr [withCounts newerPost, withCounts olderPost] \<and>
   isVisible_spec (withCounts newerPost) None \<and>
   isVisible_spec (withCounts olderPost) None \<and>
   \<not> isVisible_spec hiddenPost None \<and> \<not> isVisible_spec hiddenPost (Some 2)"
proof -
  have p: "hiddenPost \<in> set exampleDb" "isHidden hiddenPost" "\<not> isDeleted hiddenPost"
    "author hiddenPost = 1" "post_id hiddenPost = 12"
    "user (member 1) = Some 1" "user (member 2) = Some 2" "user anonymous = None"
    by (simp_all add: example_defs)
  note t = visibility_predicate [OF exampleDb_distinct p(1)]
  from t [of "member 1" "Some 1" 1 10 None "''createdAt''"]
    t [of "member 2" None 1 10 None "''createdAt''"] t [of anonymous]
    exampleDb_distinct p feed_example feed_example_anonymous
  show ?thesis by (simp add: isVisible_spec_def)
qed

section \<open>The trending listing\<close>

lemma sorted_insertDoc:
  assumes le: "\<And>a b. le a b \<longleftrightarrow> compareBy spec (get a) (get b) \<noteq> Gt"
    and total: "\<And>a b. le a b \<or> le b a"
    and trans: "\<And>a b c. le a b \<Longrightarrow> le b c \<Longrightarrow> le a c"
  shows "sorted_wrt le xs \<Longrightarrow> sorted_wrt le (insertDoc spec get d xs)"
proof (induction xs)
  case Nil
  then show ?case by simp
next
  case (Cons x xs)
  show ?case
  proof (cases "le d x")
    case True
    with Cons.prems trans have "\<forall>y \<in> set xs. le d y" by auto
    with True Cons.prems show ?thesis by (simp add: le [symmetric])
  next
    case False
    with total have "le x d" by blast
    with False Cons show ?thesis by (simp add: le [symmetric] set_insertDoc)
  qed
qed

lemma sorted_mongoSort:
  assumes le: "\<And>a b. le a b \<longleftrightarrow> compareBy spec (get a) (get b) \<noteq> Gt"
    and total: "\<And>a b. le a b \<or> le b a"
    and trans: "\<And>a b c. le a b \<Longrightarrow> le b c \<Longrightarrow> le a c"
  shows "sorted_wrt le (mongoSort spec get ds)"
  unfolding mongoSort_def
  by (induction ds) (simp_all add: sorted_insertDoc [of le spec get, OF le total trans])

lemma trendingSort_order:
  "trendingOrder_spec a b \<longleftrightarrow> compareBy trendingSort (aggField a) (aggField b) \<noteq> Gt"
  by (auto simp: trendingOrder_spec_def trendingSort_def)

lemma sorted_trending: "sorted_wrt trendingOrder_spec (mongoSort trendingSort aggField ds)"
proof (rule sorted_mongoSort [OF trendingSort_order])
  show "trendingOrder_spec a b \<or> trendingOrder_spec b a" for a b
    by (auto simp: trendingOrder_spec_def)
  show "trendingOrder_spec a b \<Longrightarrow> trendingOrder_spec b c \<Longrightarrow> trendingOrder_spec a c" for a b c
    by (auto simp: trendingOrder_spec_def)
qed

text \<open>
  Claim C8. A trending request with a positive limit is answered, and the answer is the
  same for every viewer. Every listed post is neither deleted nor hidden and was created
  no earlier than 24 hours before now, and carries the sizes of its likes and comments
  collections as its counts. The list is ordered by like count, then comment count, then
  creation time, all descending, and it is the first \<open>limit\<close> elements of the so ordered
  list of all such posts.
\<close>

theorem trending_listing:
  "(0 < requested lim \<longrightarrow> (\<exists>posts. trendingRoute req now lim db = Inr posts)) \<and>
   (\<forall>posts. trendingRoute req now lim db = Inr posts \<longrightarrow>
      trendingRoute req' now lim db = Inr posts \<and>
      (\<forall>fp \<in> set posts.
         \<not> isDeleted fp \<and> \<not> isHidden fp \<and> now - 86400000 \<le> createdAt fp \<and>
         likesCount fp = length (likes fp) \<and> commentsCount fp = length (comments fp)) \<and>
      sorted_wrt trendingOrder_spec posts \<and>
      (\<exists>all. posts = take (nat (requested lim)) all \<and>
         sorted_wrt trendingOrder_spec all \<and>
         set all = withCounts ` {p \<in> set db. \<not> isDeleted p \<and> \<not> isHidden p \<and>
                                   now - 86400000 \<le> createdAt p}))"
proof -
  let ?all = "mongoSort trendingSort aggField
                (map withCounts (filter (trendingMatch (now - 86400000)) db))"
  have ok: "trendingRoute r now lim db = Inr (take (nat (requested lim)) ?all)"
    if "0 < requested lim" for r
    using that by (simp add: trendingRoute_def requested_def Let_def)
  have pos: "0 < requested lim" if "trendingRoute req now lim db = Inr posts" for posts
    using that by (simp add: trendingRoute_def requested_def Let_def split: if_splits)
  have s: "set ?all = withCounts ` {p \<in> set db. \<not> isDeleted p \<and> \<not> isHidden p \<and>
                                   now - 86400000 \<le> createdAt p}"
    by (auto simp: set_mongoSort trendingMatch_def)
  have srt: "sorted_wrt trendingOrder_spec ?all" by (rule sorted_trending)
  have each: "\<not> isDeleted fp \<and> \<not> isHidden fp \<and> now - 86400000 \<le> createdAt fp \<and>
         likesCount fp = length (likes fp) \<and> commentsCount fp = length (comments fp)"
    if "fp \<in> set (take (nat (requested lim)) ?all)" for fp
  proof -
    from that have "fp \<in> set ?all" by (rule in_set_takeD)
    with s show ?thesis by auto
  qed
  show ?thesis
  proof (intro conjI allI impI)
    assume "0 < requested lim"
    then show "\<exists>posts. trendingRoute req now lim db = Inr posts" using ok by blast
  next
    fix posts assume a: "trendingRoute req now lim db = Inr posts"
    from pos [OF a] ok a have p: "posts = take (nat (requested lim)) ?all" by simp
    show "trendingRoute req' now lim db = Inr posts" using ok [OF pos [OF a]] p by simp
    show "\<forall>fp \<in> set posts.
         \<not> isDeleted fp \<and> \<not> isHidden fp \<and> now - 86400000 \<le> createdAt fp \<and>
         likesCount fp = length (likes fp) \<and> commentsCount fp = length (comments fp)"
      using each p by blast
    show "sorted_wrt trendingOrder_spec posts" using srt p by simp
    show "\<exists>all. posts = take (nat (requested lim)) all \<and>
         sorted_wrt trendingOrder_spec all \<and>
         set all = withCounts ` {p \<in> set db. \<not> isDeleted p \<and> \<not> isHidden p \<and>
                                   now - 86400000 \<le> createdAt p}"
      using p srt s by blast
  qed
qed

theorem trending_listing_witness:
  "0 < requested None \<and> 0 < requested (Some 1) \<and>
   author hiddenPost = 1 \<and> user (member 1) = Some 1 \<and>
   trendingRoute (member 1) 5000 None exampleDb =
     Inr [withCounts olderPost, withCounts newerPost] \<and>
   trendingRoute anonymous 5000 None exampleDb =
     Inr [withCounts olderPost, withCounts newerPost] \<and>
   trendingRoute (member 1) 5000 (Some 1) exampleDb = Inr [withCounts olderPost] \<and>
   sorted_wrt trendingOrder_spec [withCounts olderPost, withCounts newerPost] \<and>
   \<not> isDeleted (withCounts olderPost) \<and> \<not> isHidden (withCounts olderPost) \<and>
   5000 - 86400000 \<le> createdAt (withCounts olderPost) \<and>
   likesCount (withCounts olderPost) = length (likes (withCounts olderPost)) \<and>
   \<not> isDeleted (withCounts newerPost) \<and> \<not> isHidden (withCounts newerPost)"
proof -
  have e1: "trendingRoute r 5000 (Some 1) exampleDb = Inr [withCounts olderPost]" for r
    by (simp add: trendingRoute_def trendingMatch_def trendingSort_def mongoSort_def
        example_defs)
  have h: "0 < requested None" "0 < requested (Some 1)" "author hiddenPost = 1"
    "user (member 1) = Some 1"
    by (simp_all add: requested_def example_defs)
  from trending_listing [of None "member 1" 5000 exampleDb anonymous]
    trending_listing [of "Some 1" "member 1" 5000 exampleDb anonymous]
    trending_example e1 h
  show ?thesis by simp
qed

section \<open>The feed: order and pages\<close>

lemma insertDoc_cong:
  "(\<And>a b. compareBy s1 (get a) (get b) = compareBy s2 (get a) (get b)) \<Longrightarrow>
   insertDoc s1 get d xs = insertDoc s2 get d xs"
  by (induction xs) auto

lemma mongoSort_cong:
  assumes "\<And>a b. compareBy s1 (get a) (get b) = compareBy s2 (get a) (get b)"
  shows "mongoSort s1 get ds = mongoSort s2 get ds"
  unfolding mongoSort_def
  by (induction ds) (simp_all add: insertDoc_cong [of s1 get s2, OF assms])

lemma stored_likes_is_createdAt:
  "compareBy (sortCriteria ''likes'') (storedField a) (storedField b) =
   compareBy (sortCriteria ''createdAt'') (storedField a) (storedField b)"
  by (simp add: sortCriteria_def)

lemma findVisiblePosts_likes_is_createdAt:
  "findVisiblePosts page lim authorId userId ''likes'' db =
   findVisiblePosts page lim authorId userId ''createdAt'' db"
  unfolding findVisiblePosts_def
  by (simp add: mongoSort_cong [of "sortCriteria ''likes''" storedField
        "sortCriteria ''createdAt''", OF stored_likes_is_createdAt])

text \<open>
  Claim C1, evaluated. The feed asked for with \<^verbatim>\<open>sortBy=likes\<close> hands the database the sort
  key \<^verbatim>\<open>likesCount\<close>, a virtual that no stored document has, so every document compares
  equal on it and the order is that of \<^verbatim>\<open>createdAt\<close> alone
  (\<open>findVisiblePosts_likes_is_createdAt\<close>). On the example collection the newer post
  without likes comes before the older post with one like.
\<close>

theorem feed_by_likes_follows_creation_time:
  "feedRoute anonymous None None (Some ''likes'') exampleDb =
     Inr ([withCounts newerPost, withCounts olderPost], False) \<and>
   likesCount (withCounts newerPost) = 0 \<and> likesCount (withCounts olderPost) = 1 \<and>
   \<not> likesOrder_spec (withCounts newerPost) (withCounts olderPost)"
  using feed_example_anonymous
  by (simp add: feedRoute_def anonymous_def findVisiblePosts_likes_is_createdAt
      likesOrder_spec_def olderPost_def newerPost_def)

lemma findVisiblePosts_window:
  assumes "1 \<le> page" and "1 \<le> lim"
  shows "findVisiblePosts page lim authorId userId sortBy db =
           Inr (zeroBasedWindow_spec (nat (page - 1)) (nat lim)
                  (feedSequence authorId userId sortBy db))"
proof -
  have "nat ((page - 1) * lim) = nat (page - 1) * nat lim"
    using assms by (simp add: nat_mult_distrib)
  moreover have "\<not> (page - 1) * lim < 0"
    using assms by (simp add: not_less)
  ultimately show ?thesis
    using assms
    by (simp add: findVisiblePosts_def skipLimit_def zeroBasedWindow_spec_def feedSequence_def
        take_map drop_map)
qed

lemma short_window_last:
  assumes "length (zeroBasedWindow_spec k n xs) < n"
  shows "zeroBasedWindow_spec (Suc k) n xs = []"
  using assms by (auto simp: zeroBasedWindow_spec_def)

text \<open>
  Claim C2, amended. For every page \<open>p \<ge> 1\<close> and page size \<open>n \<ge> 1\<close>,
  \<^verbatim>\<open>findVisiblePosts\<close> returns the elements at offsets \<open>(p - 1) * n\<close> to
  \<open>(p - 1) * n + n - 1\<close> of the filtered, sorted sequence; a result shorter than \<open>n\<close>
  means the next page is empty; and the feed route reports \<^verbatim>\<open>hasMore\<close> exactly when the
  result has \<open>n\<close> elements.
\<close>

theorem one_based_window:
  assumes "1 \<le> page" and "1 \<le> lim"
  shows "findVisiblePosts page lim authorId userId sortBy db =
           Inr (zeroBasedWindow_spec (nat (page - 1)) (nat lim)
                  (feedSequence authorId userId sortBy db)) \<and>
         (\<forall>posts. findVisiblePosts page lim authorId userId sortBy db = Inr posts \<and>
                  int (length posts) < lim \<longrightarrow>
            findVisiblePosts (page + 1) lim authorId userId sortBy db = Inr []) \<and>
         feedRoute req (Some page) (Some lim) (Some sortBy) db =
           Inr (zeroBasedWindow_spec (nat (page - 1)) (nat lim)
                  (feedSequence None (user req) sortBy db),
                int (length (zeroBasedWindow_spec (nat (page - 1)) (nat lim)
                               (feedSequence None (user req) sortBy db))) = lim)"
proof -
  let ?w = "\<lambda>a u k. zeroBasedWindow_spec k (nat lim) (feedSequence a u sortBy db)"
  have w: "findVisiblePosts page lim a u sortBy db = Inr (?w a u (nat (page - 1)))" for a u
    by (rule findVisiblePosts_window [OF assms])
  have "1 \<le> page + 1" using assms by simp
  from findVisiblePosts_window [OF this assms(2)]
  have n: "findVisiblePosts (page + 1) lim a u sortBy db = Inr (?w a u (Suc (nat (page - 1))))"
    for a u
    using assms by (simp add: Suc_nat_eq_nat_zadd1)
  have short: "findVisiblePosts (page + 1) lim authorId userId sortBy db = Inr []"
    if "findVisiblePosts page lim authorId userId sortBy db = Inr posts"
      "int (length posts) < lim" for posts
  proof -
    from that w have "length (?w authorId userId (nat (page - 1))) < nat lim" by auto
    from short_window_last [OF this] n show ?thesis by simp
  qed
  have f: "feedRoute req (Some page) (Some lim) (Some sortBy) db =
             Inr (?w None (user req) (nat (page - 1)),
                  int (length (?w None (user req) (nat (page - 1)))) = lim)"
    by (simp add: feedRoute_def w)
  from w short f show ?thesis by blast
qed

lemma feedSequence_example:
  "feedSequence None None ''createdAt'' exampleDb = [withCounts newerPost, withCounts olderPost]"
  by (simp add: feedSequence_def mongoSort_def sortCriteria_def matchCriteria_def example_defs)

lemma withCounts_inj: "withCounts p = withCounts q \<Longrightarrow> p = q"
  by (cases p, cases q) (simp add: withCounts_def post.defs)

text \<open>
  Claim C2 as stated fails: pages are counted from one. Page 1 with page size 1 is the
  first post of the sequence, where the zero-based window of page 1 is the second.
\<close>

theorem zero_based_window_counterexample:
  "feedSequence None None ''createdAt'' exampleDb =
     [withCounts newerPost, withCounts olderPost] \<and>
   zeroBasedWindow_spec 1 1 (feedSequence None None ''createdAt'' exampleDb) =
     [withCounts olderPost] \<and>
   findVisiblePosts 1 1 None None ''createdAt'' exampleDb = Inr [withCounts newerPost] \<and>
   feedRoute anonymous (Some 1) (Some 1) None exampleDb = Inr ([withCounts newerPost], True) \<and>
   withCounts newerPost \<noteq> withCounts olderPost"
proof -
  have f: "findVisiblePosts 1 1 None None ''createdAt'' exampleDb = Inr [withCounts newerPost]"
    by (simp add: findVisiblePosts_def skipLimit_def mongoSort_def sortCriteria_def
        matchCriteria_def example_defs)
  have n: "withCounts newerPost \<noteq> withCounts olderPost"
    using withCounts_inj [of newerPost olderPost] by (auto simp: example_defs)
  show ?thesis
    using f n by (simp add: feedSequence_example zeroBasedWindow_spec_def feedRoute_def
        anonymous_def)
qed

theorem one_based_window_witness:
  "(1::int) \<le> 2 \<and> (1::int) \<le> 1 \<and> (1::int) \<le> 10 \<and>
   findVisiblePosts 1 1 None None ''createdAt'' exampleDb = Inr [withCounts newerPost] \<and>
   findVisiblePosts 2 1 None None ''createdAt'' exampleDb = Inr [withCounts olderPost] \<and>
   findVisiblePosts 1 10 None None ''createdAt'' exampleDb =
     Inr [withCounts newerPost, withCounts olderPost] \<and>
   int (length [withCounts newerPost, withCounts olderPost]) < 10 \<and>
   findVisiblePosts 2 10 None None ''createdAt'' exampleDb = Inr [] \<and>
   feedRoute anonymous (Some 1) (Some 10) (Some ''createdAt'') exampleDb =
     Inr ([withCounts newerPost, withCounts olderPost], False)"
proof -
  have u: "user anonymous = None" by (simp add: anonymous_def)
  have a: "(1::int) \<le> 2" "(1::int) \<le> 1" "(1::int) \<le> 10" by simp_all
  from one_based_window [OF a(2,2), of None None "''createdAt''" exampleDb anonymous]
    one_based_window [OF a(1,2), of None None "''createdAt''" exampleDb anonymous]
    one_based_window [OF a(2,3), of None None "''createdAt''" exampleDb anonymous]
  show ?thesis
    by (simp add: feedSequence_example zeroBasedWindow_spec_def u)
qed

section \<open>Creating a post\<close>

lemma last_dropWhile: "dropWhile P xs \<noteq> [] \<Longrightarrow> last (dropWhile P xs) = last xs"
  by (induction xs) (auto split: if_splits)

lemma dropWhile_fix: "xs = [] \<or> \<not> P (hd xs) \<Longrightarrow> dropWhile P xs = xs"
  by (cases xs) auto

lemma trim_idem: "trim (trim s) = trim s"
proof -
  let ?ys = "dropWhile isWhiteSpace s"
  let ?zs = "dropWhile isWhiteSpace (rev ?ys)"
  have t: "trim s = rev ?zs" by (simp add: trim_def)
  have "dropWhile isWhiteSpace (rev ?zs) = rev ?zs"
  proof (rule dropWhile_fix, cases "?zs = []")
    case True
    then show "rev ?zs = [] \<or> \<not> isWhiteSpace (hd (rev ?zs))" by simp
  next
    case False
    have ys: "?ys \<noteq> []"
    proof
      assume "?ys = []"
      then have "?zs = []" by (simp only: rev.simps(1) dropWhile.simps(1))
      with False show False by blast
    qed
    have "hd (rev ?zs) = last ?zs" by (simp add: hd_rev)
    also have "\<dots> = last (rev ?ys)" using False by (rule last_dropWhile)
    also have "\<dots> = hd ?ys" using ys by (simp add: last_rev)
    finally have "\<not> isWhiteSpace (hd (rev ?zs))" using ys hd_dropWhile by metis
    then show "rev ?zs = [] \<or> \<not> isWhiteSpace (hd (rev ?zs))" by simp
  qed
  then show ?thesis by (simp add: t trim_def)
qed

lemma save_Inr: "save p = Inr q \<longleftrightarrow> q = p \<and> validPost p"
  by (auto simp: save_def)

lemma trimmed_trim: "trimmed v = Some t \<Longrightarrow> trim t = t"
  by (cases v) (auto simp: trimmed_def trim_idem, simp add: trim_def, simp add: trim_def)

lemma trimmed_validates:
  "trimmed v = Some t \<Longrightarrow> \<exists>errors. validateRequest createPostValidation v = Inr errors"
  by (cases v) (simp_all add: trimmed_def validateRequest_def toString_def falsy_def)

lemma createPostHandler_accepts:
  assumes "createPostHandler newId now userId body_content body_images db = (Inr p, db')"
  shows "db' = db @ [p] \<and> trimmed body_content = Some (content p) \<and>
         images p = body_images \<and> (trim (content p) \<noteq> [] \<or> images p \<noteq> [])"
proof -
  from assms obtain t where t: "trimmed body_content = Some t"
    by (cases "trimmed body_content") (simp_all add: createPostHandler_def)
  have tt: "trim t = t" using t by (rule trimmed_trim)
  from assms show ?thesis
    by (auto simp: createPostHandler_def t tt save_Inr validPost_def preValidate_def
        split: option.splits sum.splits)
qed

text \<open>
  Claim C9. Creating a post whose content is absent or empty after trimming, with no
  images, is answered by the handler with 400 \<^verbatim>\<open>Post must have either content or images\<close>
  and the collection is unchanged; through the route an authenticated actor whom the
  rate limiter admits gets a 400. A post that the route creates is appended to the
  collection with the trimmed content, and its trimmed content is non-empty or it has an
  image. Whatever \<^verbatim>\<open>save()\<close> accepts has content or an image.
\<close>

theorem createPost_needs_content_or_images:
  "(trimmed body_content = Some [] \<and> body_images = [] \<longrightarrow>
      createPostHandler newId now userId body_content body_images db =
        (Inl (Failure 400 ''Post must have either content or images''), db) \<and>
      snd (createPostRoute req newId now body_content body_images db) = db \<and>
      (user req = Some userId \<and> \<not> limited req \<longrightarrow>
         (\<exists>msg. createPostRoute req newId now body_content body_images db =
                  (Inl (Failure 400 msg), db)))) \<and>
   (\<forall>p db'. createPostRoute req newId now body_content body_images db = (Inr p, db') \<longrightarrow>
      db' = db @ [p] \<and> trimmed body_content = Some (content p) \<and> images p = body_images \<and>
      (trim (content p) \<noteq> [] \<or> images p \<noteq> [])) \<and>
   (\<forall>p q. save p = Inr q \<longrightarrow> q = p \<and> (content q \<noteq> [] \<or> images q \<noteq> []))"
proof -
  have h: "createPostHandler newId now uid body_content body_images db =
        (Inl (Failure 400 ''Post must have either content or images''), db)"
    if "trimmed body_content = Some []" "body_images = []" for uid
    using that by (simp add: createPostHandler_def checkPostInput_def)
  have r1: "snd (createPostRoute req newId now body_content body_images db) = db"
    if "trimmed body_content = Some []" "body_images = []"
    using h [OF that]
    by (simp add: createPostRoute_def split: option.splits sum.splits)
  have r2: "\<exists>msg. createPostRoute req newId now body_content body_images db =
                  (Inl (Failure 400 msg), db)"
    if "trimmed body_content = Some []" "body_images = []" "user req = Some userId"
      "\<not> limited req"
  proof -
    from trimmed_validates [OF that(1)]
    obtain errors where "validateRequest createPostValidation body_content = Inr errors"
      by blast
    with that h [OF that(1,2)] show ?thesis
      by (simp add: createPostRoute_def validationFailed_def)
  qed
  have acc: "db' = db @ [p] \<and> trimmed body_content = Some (content p) \<and>
      images p = body_images \<and> (trim (content p) \<noteq> [] \<or> images p \<noteq> [])"
    if "createPostRoute req newId now body_content body_images db = (Inr p, db')" for p db'
  proof -
    from that obtain uid where
      "createPostHandler newId now uid body_content body_images db = (Inr p, db')"
      by (auto simp: createPostRoute_def split: option.splits sum.splits if_splits)
    then show ?thesis by (rule createPostHandler_accepts)
  qed
  have sv: "q = p \<and> (content q \<noteq> [] \<or> images q \<noteq> [])" if "save p = Inr q" for p q
    using that by (auto simp: save_Inr validPost_def preValidate_def)
  from h r1 r2 acc sv show ?thesis by blast
qed

lemma trimmed_blank: "trimmed (JString [32, 32]) = Some []"
  by (simp add: string_defs)

lemma trimmed_hi: "trimmed (JString [32, 104, 105, 32]) = Some [104, 105]"
  by (simp add: string_defs)

lemma trim_hi: "trim [104, 105] = [104, 105]"
  by (simp add: string_defs)

lemma save_createdPost: "save createdPost = Inr createdPost"
  by (simp add: save_def valid_defs createdPost_def)

lemma createPostRoute_example:
  "createPostRoute (member 1) 20 6000 (JString [32, 104, 105, 32]) [] exampleDb =
     (Inr createdPost, exampleDb @ [createdPost])"
proof -
  have v: "validateRequest createPostValidation (JString [32, 104, 105, 32]) = Inr []"
    by (simp add: createPostValidation_def string_defs)
  have c: "checkPostInput [104, 105] [] = None"
    by (simp add: checkPostInput_def)
  have "createPostHandler 20 6000 1 (JString [32, 104, 105, 32]) [] exampleDb =
     (Inr createdPost, exampleDb @ [createdPost])"
    using save_createdPost by (simp add: createPostHandler_def c trimmed_hi trim_hi createdPost_def)
  then show ?thesis by (simp add: createPostRoute_def member_def v)
qed

theorem createPost_needs_content_or_images_witness:
  "trimmed (JString [32, 32]) = Some [] \<and> user (member 1) = Some 1 \<and>
   \<not> limited (member 1) \<and>
   createPostHandler 20 6000 1 (JString [32, 32]) [] exampleDb =
     (Inl (Failure 400 ''Post must have either content or images''), exampleDb) \<and>
   snd (createPostRoute (member 1) 20 6000 (JString [32, 32]) [] exampleDb) = exampleDb \<and>
   (\<exists>msg. createPostRoute (member 1) 20 6000 (JString [32, 32]) [] exampleDb =
            (Inl (Failure 400 msg), exampleDb)) \<and>
   createPostRoute (member 1) 20 6000 (JString [32, 104, 105, 32]) [] exampleDb =
     (Inr createdPost, exampleDb @ [createdPost]) \<and>
   trim (content createdPost) \<noteq> [] \<and>
   save createdPost = Inr createdPost \<and> content createdPost \<noteq> []"
proof -
  have u: "user (member 1) = Some 1" "\<not> limited (member 1)" by (simp_all add: member_def)
  have i: "images createdPost = []" by (simp add: createdPost_def)
  note blank = createPost_needs_content_or_images
         [of "JString [32, 32]" "[]" 20 6000 1 exampleDb "member 1", THEN conjunct1]
  note accepted = createPost_needs_content_or_images
         [of "JString [32, 104, 105, 32]" "[]" 20 6000 1 exampleDb "member 1",
          THEN conjunct2, THEN conjunct1, rule_format, OF createPostRoute_example]
  note saved = createPost_needs_content_or_images
         [of "JString [32, 104, 105, 32]" "[]" 20 6000 1 exampleDb "member 1",
          THEN conjunct2, THEN conjunct2, rule_format, OF save_createdPost]
  from blank trimmed_blank u
  have b: "createPostHandler 20 6000 1 (JString [32, 32]) [] exampleDb =
     (Inl (Failure 400 ''Post must have either content or images''), exampleDb) \<and>
   snd (createPostRoute (member 1) 20 6000 (JString [32, 32]) [] exampleDb) = exampleDb \<and>
   (\<exists>msg. createPostRoute (member 1) 20 6000 (JString [32, 32]) [] exampleDb =
            (Inl (Failure 400 msg), exampleDb))"
    by simp
  from accepted i have a: "trim (content createdPost) \<noteq> []" by blast
  from saved i have s: "content createdPost \<noteq> []" by blast
  from b a s trimmed_blank u createPostRoute_example save_createdPost
  show ?thesis by blast
qed

section \<open>Mutations of a hidden post\<close>

lemma getPost_hidden_example: "getPost 12 exampleDb = Inr hiddenPost"
  by (simp add: getPost_def example_defs)

lemma blank_comment_invalid:
  "validateRequest commentValidation (JString []) = Inr [IsRequired]"
  "validateRequest replyValidation (JString [32]) = Inr [IsRequired]"
  by (simp_all add: commentValidation_def replyValidation_def string_defs)

text \<open>
  Claim C10 as stated fails for comments and replies: \<^verbatim>\<open>validateRequest\<close> runs before
  the handler's visibility check, so a blank comment or reply on a hidden post of
  somebody else is answered 400 \<^verbatim>\<open>Validation failed\<close>, not 404.
\<close>

theorem hidden_post_gate_counterexample:
  "hiddenPost \<in> set exampleDb \<and> isHidden hiddenPost \<and> \<not> isDeleted hiddenPost \<and>
   author hiddenPost \<noteq> 2 \<and> user (member 2) = Some 2 \<and> \<not> limited (member 2) \<and>
   addCommentRoute (member 2) 12 99 (JString []) exampleDb =
     (Inl (Failure 400 ''Validation failed''), exampleDb) \<and>
   addReplyRoute (member 2) 12 7 99 (JString [32]) exampleDb =
     (Inl (Failure 400 ''Validation failed''), exampleDb) \<and>
   Failure 400 ''Validation failed'' \<noteq> postNotFound"
proof -
  have p: "hiddenPost \<in> set exampleDb" "isHidden hiddenPost" "\<not> isDeleted hiddenPost"
    "author hiddenPost \<noteq> 2" "user (member 2) = Some 2" "\<not> limited (member 2)"
    by (simp_all add: example_defs)
  have c: "addCommentRoute (member 2) 12 99 (JString []) exampleDb =
     (Inl (Failure 400 ''Validation failed''), exampleDb)"
    by (simp add: addCommentRoute_def getPost_hidden_example blank_comment_invalid
        validationFailed_def member_def)
  have r: "addReplyRoute (member 2) 12 7 99 (JString [32]) exampleDb =
     (Inl (Failure 400 ''Validation failed''), exampleDb)"
    by (simp add: addReplyRoute_def getPost_hidden_example blank_comment_invalid
        validationFailed_def member_def)
  have n: "Failure 400 ''Validation failed'' \<noteq> postNotFound"
    by (simp add: postNotFound_def)
  from p c r n show ?thesis by blast
qed

text \<open>
  A comment whose content is not a string, here the number 123: it passes
  \<^verbatim>\<open>validateRequest\<close>, and the handler's \<^verbatim>\<open>content.substring\<close> throws before the post is
  looked at, so the answer is 500 \<^verbatim>\<open>Error adding comment\<close> on a hidden post as on any
  other. The reply handler checks the post first and answers 404.
\<close>

lemma comment_with_number_on_hidden_post:
  "validateRequest commentValidation (JOther True (Inr [49, 50, 51])) = Inr [] \<and>
   addCommentRoute (member 2) 12 99 (JOther True (Inr [49, 50, 51])) exampleDb =
     (Inl (Failure 500 ''Error adding comment''), exampleDb) \<and>
   addReplyRoute (member 2) 12 7 99 (JOther True (Inr [49, 50, 51])) exampleDb =
     (Inl postNotFound, exampleDb)"
proof -
  have v: "validateRequest commentValidation (JOther True (Inr [49, 50, 51])) = Inr []"
    "validateRequest replyValidation (JOther True (Inr [49, 50, 51])) = Inr []"
    by (simp_all add: commentValidation_def replyValidation_def string_defs)
  have h: "isHidden hiddenPost \<and> author hiddenPost \<noteq> 2" by (simp add: hiddenPost_def)
  show ?thesis
    by (simp add: addCommentRoute_def addReplyRoute_def getPost_hidden_example v h member_def)
qed

text \<open>
  Claim C10, amended. For a hidden, non-deleted post of the collection and an
  authenticated actor who is not its author, every like, comment-like and reply-like
  request, and every comment or reply request whose content is a string or absent,
  fails and leaves the collection unchanged. The failure is 404 \<^verbatim>\<open>Post not found\<close>
  whenever the request gets as far as the handler: for a comment or a reply whose
  content fails \<^verbatim>\<open>validateRequest\<close> it is 400 \<^verbatim>\<open>Validation failed\<close>, and for an actor at
  the rate limit it is 429. Nothing is said here of a comment or reply whose content is
  not a string.
\<close>

theorem hidden_post_mutations_gated:
  assumes "distinct (map post_id db)" and "P \<in> set db" and "isHidden P" and "\<not> isDeleted P"
    and "user req = Some u" and "u \<noteq> author P"
  shows "likeRoute req (post_id P) db =
           (Inl (if limited req then tooManyRequests else postNotFound), db) \<and>
         commentLikeRoute req (post_id P) commentId db =
           (Inl (if limited req then tooManyRequests else postNotFound), db) \<and>
         (textual body_content \<longrightarrow>
            addCommentRoute req (post_id P) newId body_content db =
              (Inl (if validateRequest commentValidation body_content \<noteq> Inr []
                      then validationFailed
                    else if limited req then tooManyRequests else postNotFound), db)) \<and>
         (textual body_content \<longrightarrow>
            addReplyRoute req (post_id P) commentId newId body_content db =
              (Inl (if validateRequest replyValidation body_content \<noteq> Inr []
                      then validationFailed
                    else if limited req then tooManyRequests else postNotFound), db)) \<and>
         replyLikeRoute req (post_id P) commentId replyId db =
           (Inl (if limited req then tooManyRequests else postNotFound), db)"
proof -
  have g: "getPost (post_id P) db = Inr P"
    using getPost_unique [OF assms(1,2)] assms(4) by simp
  have h: "isHidden P \<and> author P \<noteq> u" using assms(3,6) by blast
  have 1: "likeRoute req (post_id P) db =
           (Inl (if limited req then tooManyRequests else postNotFound), db)"
    by (simp add: likeRoute_def g assms(5) h)
  have 2: "commentLikeRoute req (post_id P) commentId db =
           (Inl (if limited req then tooManyRequests else postNotFound), db)"
    by (simp add: commentLikeRoute_def g assms(5) h)
  have 3: "addCommentRoute req (post_id P) newId body_content db =
              (Inl (if validateRequest commentValidation body_content \<noteq> Inr []
                      then validationFailed
                    else if limited req then tooManyRequests else postNotFound), db)"
    if t: "textual body_content"
  proof (cases body_content)
    case JUndefined
    have "validateRequest commentValidation JUndefined = Inr [IsRequired]"
      by (simp add: validateRequest_required_absent commentValidation_def)
    with JUndefined show ?thesis by (simp add: addCommentRoute_def g assms(5))
  next
    case (JString c)
    from validateRequest_textual [OF t]
    obtain errors where "validateRequest commentValidation body_content = Inr errors"
      by blast
    with JString show ?thesis by (simp add: addCommentRoute_def g assms(5) h)
  next
    case JNull
    with t show ?thesis by (simp add: textual_def)
  next
    case (JOther b r)
    with t show ?thesis by (simp add: textual_def)
  qed
  have 4: "addReplyRoute req (post_id P) commentId newId body_content db =
              (Inl (if validateRequest replyValidation body_content \<noteq> Inr []
                      then validationFailed
                    else if limited req then tooManyRequests else postNotFound), db)"
    if t: "textual body_content"
  proof -
    from validateRequest_textual [OF t]
    obtain errors where "validateRequest replyValidation body_content = Inr errors"
      by blast
    then show ?thesis by (simp add: addReplyRoute_def g assms(5) h)
  qed
  have 5: "replyLikeRoute req (post_id P) commentId replyId db =
           (Inl (if limited req then tooManyRequests else postNotFound), db)"
    by (simp add: replyLikeRoute_def g assms(5) h)
  from 1 2 3 4 5 show ?thesis by blast
qed

theorem hidden_post_mutations_gated_witness:
  "distinct (map post_id exampleDb) \<and> hiddenPost \<in> set exampleDb \<and> isHidden hiddenPost \<and>
   \<not> isDeleted hiddenPost \<and> user (member 2) = Some 2 \<and> 2 \<noteq> author hiddenPost \<and>
   \<not> limited (member 2) \<and> textual (JString [104, 105]) \<and>
   validateRequest commentValidation (JString [104, 105]) = Inr [] \<and>
   validateRequest replyValidation (JString [104, 105]) = Inr [] \<and>
   likeRoute (member 2) 12 exampleDb = (Inl postNotFound, exampleDb) \<and>
   commentLikeRoute (member 2) 12 7 exampleDb = (Inl postNotFound, exampleDb) \<and>
   addCommentRoute (member 2) 12 99 (JString [104, 105]) exampleDb =
     (Inl postNotFound, exampleDb) \<and>
   addReplyRoute (member 2) 12 7 99 (JString [104, 105]) exampleDb =
     (Inl postNotFound, exampleDb) \<and>
   replyLikeRoute (member 2) 12 7 9 exampleDb = (Inl postNotFound, exampleDb)"
proof -
  have p: "hiddenPost \<in> set exampleDb" "isHidden hiddenPost" "\<not> isDeleted hiddenPost"
    "user (member 2) = Some 2" "2 \<noteq> author hiddenPost"
    by (simp_all add: example_defs)
  have q: "\<not> limited (member 2)" "post_id hiddenPost = 12"
    by (simp_all add: example_defs)
  have t: "textual (JString [104, 105])" by (simp add: textual_def)
  have v: "validateRequest commentValidation (JString [104, 105]) = Inr []"
    "validateRequest replyValidation (JString [104, 105]) = Inr []"
    by (simp_all add: commentValidation_def replyValidation_def string_defs)
  from hidden_post_mutations_gated [OF exampleDb_distinct p, of 7 "JString [104, 105]" 99 9]
  have "likeRoute (member 2) 12 exampleDb = (Inl postNotFound, exampleDb) \<and>
   commentLikeRoute (member 2) 12 7 exampleDb = (Inl postNotFound, exampleDb) \<and>
   addCommentRoute (member 2) 12 99 (JString [104, 105]) exampleDb =
     (Inl postNotFound, exampleDb) \<and>
   addReplyRoute (member 2) 12 7 99 (JString [104, 105]) exampleDb =
     (Inl postNotFound, exampleDb) \<and>
   replyLikeRoute (member 2) 12 7 9 exampleDb = (Inl postNotFound, exampleDb)"
    by (simp add: q v t)
  with exampleDb_distinct p q v t show ?thesis by blast
qed

end
